theory Spec2Isabelle
  imports Main "HOL-Library.Sublist"
begin

section \<open>Python strings\<close>

text \<open>
  A Python \<open>str\<close> is a sequence of Unicode code points, so it is modelled as a list of
  natural numbers. The ASCII part of a literal is written as an Isabelle string and
  converted; the Japanese part of a literal is written as its code points.
\<close>

type_synonym codepoint = nat
type_synonym pystr = "codepoint list"

definition ascii :: "string \<Rightarrow> pystr" where
  "ascii s = map of_char s"

text \<open>
  \<open>str.isspace\<close> of one code point: the characters \<open>str.strip()\<close> removes when it is
  called without an argument.
\<close>

definition is_space :: "codepoint \<Rightarrow> bool" where
  "is_space c \<longleftrightarrow>
     (0x09 \<le> c \<and> c \<le> 0x0D) \<or> (0x1C \<le> c \<and> c \<le> 0x20) \<or> c = 0x85 \<or> c = 0xA0 \<or>
     c = 0x1680 \<or> (0x2000 \<le> c \<and> c \<le> 0x200A) \<or> c = 0x2028 \<or> c = 0x2029 \<or>
     c = 0x202F \<or> c = 0x205F \<or> c = 0x3000"

definition lstrip :: "pystr \<Rightarrow> pystr" where
  "lstrip s = dropWhile is_space s"

definition rstrip :: "pystr \<Rightarrow> pystr" where
  "rstrip s = rev (dropWhile is_space (rev s))"

definition strip :: "pystr \<Rightarrow> pystr" where
  "strip s = rstrip (lstrip s)"

text \<open>\<open>s.startswith(p)\<close>.\<close>

definition startswith :: "pystr \<Rightarrow> pystr \<Rightarrow> bool" where
  "startswith s p \<longleftrightarrow> take (length p) s = p"

text \<open>\<open>sep.join(xs)\<close>.\<close>

fun join :: "pystr \<Rightarrow> pystr list \<Rightarrow> pystr" where
  "join sep [] = []"
| "join sep [x] = x"
| "join sep (x # y # ys) = x @ sep @ join sep (y # ys)"

text \<open>\<open>str(n)\<close> of a non-negative integer: its decimal digits.\<close>

fun str_nat :: "nat \<Rightarrow> pystr" where
  "str_nat n = (if n < 10 then [48 + n] else str_nat (n div 10) @ [48 + n mod 10])"

declare str_nat.simps [simp del]

text \<open>\<open>s.zfill(w)\<close> of a string of digits.\<close>

definition zfill :: "nat \<Rightarrow> pystr \<Rightarrow> pystr" where
  "zfill w s = replicate (w - length s) 48 @ s"

text \<open>
  \<open>range(start, stop, step)\<close> for a positive step, as the list of its values. A zero step
  raises \<open>ValueError\<close> in Python; the only call passes the constant chunk length.
\<close>

function py_range :: "nat \<Rightarrow> nat \<Rightarrow> nat \<Rightarrow> nat list" where
  "py_range start stop step =
     (if step = 0 \<or> stop \<le> start then [] else start # py_range (start + step) stop step)"
  by pat_completeness auto
termination
  by (relation "measure (\<lambda>(start, stop, step). stop - start)") auto

declare py_range.simps [simp del]

section \<open>Paths (\<open>posixpath\<close>)\<close>

text \<open>\<open>os.path.basename(p)\<close>: what follows the last \<open>/\<close>.\<close>

definition basename :: "pystr \<Rightarrow> pystr" where
  "basename p = rev (takeWhile (\<lambda>c. c \<noteq> 47) (rev p))"

text \<open>
  \<open>os.path.splitext(p)\<close>: the extension starts at the last dot, when that dot comes
  after the last \<open>/\<close> and some character of the file name before it is not a dot.
\<close>

definition splitext :: "pystr \<Rightarrow> pystr \<times> pystr" where
  "splitext p =
     (let after_dot = rev (takeWhile (\<lambda>c. c \<noteq> 46) (rev p)) in
      if 46 \<notin> set p \<or> 47 \<in> set after_dot then (p, [])
      else
        let root = take (length p - length after_dot - 1) p in
        if \<forall>c \<in> set (basename root). c = 46 then (p, []) else (root, drop (length root) p))"

text \<open>\<open>os.path.join(a, b)\<close>.\<close>

definition path_join :: "pystr \<Rightarrow> pystr \<Rightarrow> pystr" where
  "path_join a b =
     (if startswith b (ascii ''/'') then b
      else if a = [] \<or> last a = 47 then a @ b
      else a @ ascii ''/'' @ b)"

section \<open>Configuration\<close>

definition MAX_FILE_SIZE_MB :: nat where
  "MAX_FILE_SIZE_MB = 25"

definition AUDIO_CHUNK_LENGTH_MS :: nat where
  "AUDIO_CHUNK_LENGTH_MS = 30 * 60 * 1000"

section \<open>The glossary file\<close>

text \<open>
  The file is opened in text mode, so Python translates \<open>\r\n\<close> and a lone \<open>\r\<close> to
  \<open>\n\<close> while reading, and iterating the file yields the lines, each with its
  terminating \<open>\n\<close> (the last line has none when the file does not end in one).
\<close>

fun universal_newlines :: "pystr \<Rightarrow> pystr" where
  "universal_newlines [] = []"
| "universal_newlines [x] = [if x = 13 then 10 else x]"
| "universal_newlines (x # y # ys) =
     (if x = 13 \<and> y = 10 then 10 # universal_newlines ys
      else if x = 13 then 10 # universal_newlines (y # ys)
      else x # universal_newlines (y # ys))"

fun split_lines :: "pystr \<Rightarrow> pystr list" where
  "split_lines [] = []"
| "split_lines (x # xs) =
     (if x = 10 then [x] # split_lines xs
      else (case split_lines xs of [] \<Rightarrow> [[x]] | l # ls \<Rightarrow> (x # l) # ls))"

definition file_lines :: "pystr \<Rightarrow> pystr list" where
  "file_lines text = split_lines (universal_newlines text)"

text \<open>
  What is at \<open>SPECIAL_TERMS_FILE\<close>: nothing, something that \<open>os.path.exists\<close> sees but
  \<open>open\<close> or the UTF-8 decoder rejects, or a text file with its decoded content.
\<close>

datatype glossary_source = Absent | Unreadable | TextFile pystr

text \<open>
  How a call ends: it returns a value, an exception leaves it (nothing in the script
  catches it, so the interpreter ends the process), or it calls \<open>sys.exit\<close>.
\<close>

datatype pyexn = OSError | TranscriptionError | ExportError

datatype 'a result = Returned 'a | Raised pyexn | SysExit nat

definition load_special_terms :: "glossary_source \<Rightarrow> pystr list result" where
  "load_special_terms src =
     (case src of
        Absent \<Rightarrow> Returned []
      | Unreadable \<Rightarrow> Raised OSError
      | TextFile text \<Rightarrow>
          Returned [strip ln. ln \<leftarrow> file_lines text,
                    strip ln \<noteq> [] \<and> \<not> startswith ln (ascii ''#'')])"

section \<open>The prompt\<close>

definition meeting_spec :: "pystr \<times> pystr" where
  "meeting_spec =
    ([0x3042, 0x306A, 0x305F, 0x306F, 0x512A, 0x79C0, 0x306A, 0x4F1A, 0x8B70, 0x66F8,
     0x8A18, 0x62C5, 0x5F53] @ ascii ''AI'' @ [0x3067, 0x3059, 0x3002, 0x4EE5, 0x4E0B,
     0x306E, 0x4F1A, 0x8B70, 0x306E, 0x6587, 0x5B57, 0x8D77, 0x3053, 0x3057, 0x5185,
     0x5BB9, 0x3092, 0x65E5, 0x672C, 0x8A9E, 0x3067, 0x8981, 0x7D04, 0x3057, 0x3066,
     0x304F, 0x3060, 0x3055, 0x3044, 0x3002] @ ascii ''\<newline>'' @ [0x4F1A, 0x8B70,
     0x306E, 0x4E3B, 0x306A, 0x76EE, 0x7684, 0x3001, 0x8B70, 0x8AD6, 0x3055, 0x308C,
     0x305F, 0x4E3B, 0x8981, 0x306A, 0x30DD, 0x30A4, 0x30F3, 0x30C8, 0x3001, 0x53C2,
     0x52A0, 0x8005, 0x306E, 0x767A, 0x8A00, 0x306E, 0x8981, 0x70B9, 0x3001, 0x6C7A,
     0x5B9A, 0x4E8B, 0x9805, 0x3001, 0x304A, 0x3088, 0x3073, 0x30CD, 0x30AF, 0x30B9,
     0x30C8, 0x30A2, 0x30AF, 0x30B7, 0x30E7, 0x30F3, 0xFF08, 0x62C5, 0x5F53, 0x8005,
     0x3068, 0x671F, 0x9650, 0x304C, 0x660E, 0x78BA, 0x306A, 0x5834, 0x5408, 0x306F,
     0x305D, 0x308C, 0x3082, 0x542B, 0x3080, 0xFF09, 0x3092, 0x3001, 0x69CB, 0x9020,
     0x5316, 0x3055, 0x308C, 0x305F, 0x7B87, 0x6761, 0x66F8, 0x304D, 0xFF08]
     @ ascii ''Markdown'' @ [0x5F62, 0x5F0F, 0xFF09, 0x3067, 0x793A, 0x3057, 0x3066,
     0x304F, 0x3060, 0x3055, 0x3044, 0x3002],
     [0x4F1A, 0x8B70, 0x306E, 0x8981, 0x70B9, 0x3092, 0x6B63, 0x78BA, 0x306B, 0x62BD,
     0x51FA, 0x3057, 0x3001, 0x8B70, 0x4E8B, 0x9332, 0x3068, 0x3057, 0x3066, 0x5206,
     0x304B, 0x308A, 0x3084, 0x3059, 0x304F, 0x307E, 0x3068, 0x3081, 0x3066, 0x304F,
     0x3060, 0x3055, 0x3044, 0x3002])"

definition presentation_spec :: "pystr \<times> pystr" where
  "presentation_spec =
    ([0x3042, 0x306A, 0x305F, 0x306F, 0x512A, 0x79C0, 0x306A, 0x30EC, 0x30DD, 0x30FC,
     0x30C8, 0x4F5C, 0x6210] @ ascii ''AI'' @ [0x3067, 0x3059, 0x3002, 0x4EE5, 0x4E0B,
     0x306E, 0x767A, 0x8868, 0x3001, 0x8B1B, 0x6F14, 0x3001, 0x307E, 0x305F, 0x306F,
     0x8B1B, 0x7FA9, 0x306E, 0x6587, 0x5B57, 0x8D77, 0x3053, 0x3057, 0x5185, 0x5BB9,
     0x3092, 0x65E5, 0x672C, 0x8A9E, 0x3067, 0x8981, 0x7D04, 0x3057, 0x3066, 0x304F,
     0x3060, 0x3055, 0x3044, 0x3002] @ ascii ''\<newline>'' @ [0x767A, 0x8868, 0x306E,
     0x4E3B, 0x8981, 0x306A, 0x30C6, 0x30FC, 0x30DE, 0x3001, 0x80CC, 0x666F, 0x3001,
     0x63D0, 0x5531, 0x3055, 0x308C, 0x3066, 0x3044, 0x308B, 0x4E2D, 0x5FC3, 0x7684,
     0x306A, 0x30A2, 0x30A4, 0x30C7, 0x30A2, 0x3084, 0x8B70, 0x8AD6, 0x3001, 0x91CD,
     0x8981, 0x306A, 0x8AD6, 0x70B9, 0x3084, 0x767A, 0x898B, 0x3001, 0x305D, 0x3057,
     0x3066, 0x7D50, 0x8AD6, 0x3084, 0x8074, 0x8846, 0x3078, 0x306E, 0x4E3B, 0x306A,
     0x30E1, 0x30C3, 0x30BB, 0x30FC, 0x30B8, 0x3092, 0x660E, 0x78BA, 0x306B, 0x7B87,
     0x6761, 0x66F8, 0x304D, 0xFF08] @ ascii ''Markdown'' @ [0x5F62, 0x5F0F, 0xFF09,
     0x3067, 0x793A, 0x3057, 0x3066, 0x304F, 0x3060, 0x3055, 0x3044, 0x3002],
     [0x767A, 0x8868, 0x5185, 0x5BB9, 0x306E, 0x6838, 0x5FC3, 0x3092, 0x6349, 0x3048,
     0x305F, 0x8981, 0x7D04, 0x3092, 0x4F5C, 0x6210, 0x3057, 0x3066, 0x304F, 0x3060,
     0x3055, 0x3044, 0x3002])"

definition general_spec :: "pystr \<times> pystr" where
  "general_spec =
    ([0x3042, 0x306A, 0x305F, 0x306F, 0x512A, 0x79C0, 0x306A, 0x8981, 0x7D04]
     @ ascii ''AI'' @ [0x3067, 0x3059, 0x3002, 0x4EE5, 0x4E0B, 0x306E, 0x6587, 0x5B57,
     0x8D77, 0x3053, 0x3057, 0x5185, 0x5BB9, 0x3092, 0x65E5, 0x672C, 0x8A9E, 0x3067,
     0x7C21, 0x6F54, 0x306B, 0x8981, 0x7D04, 0x3057, 0x3066, 0x304F, 0x3060, 0x3055,
     0x3044, 0x3002] @ ascii ''\<newline>'' @ [0x30C6, 0x30AD, 0x30B9, 0x30C8, 0x5168,
     0x4F53, 0x306E, 0x4E3B, 0x8981, 0x306A, 0x60C5, 0x5831, 0x3092, 0x62BD, 0x51FA,
     0x3057, 0x3001, 0x6700, 0x3082, 0x91CD, 0x8981, 0x306A, 0x30DD, 0x30A4, 0x30F3,
     0x30C8, 0x3084, 0x30C8, 0x30D4, 0x30C3, 0x30AF, 0x3092, 0x7B87, 0x6761, 0x66F8,
     0x304D, 0xFF08] @ ascii ''Markdown'' @ [0x5F62, 0x5F0F, 0xFF09, 0x3067, 0x5206,
     0x304B, 0x308A, 0x3084, 0x3059, 0x304F, 0x793A, 0x3057, 0x3066, 0x304F, 0x3060,
     0x3055, 0x3044, 0x3002],
     [0x4E0E, 0x3048, 0x3089, 0x308C, 0x305F, 0x30C6, 0x30AD, 0x30B9, 0x30C8, 0x306E,
     0x5185, 0x5BB9, 0x3092, 0x6B63, 0x78BA, 0x306B, 0x628A, 0x63E1, 0x3057, 0x3001,
     0x7C21, 0x6F54, 0x306A, 0x8981, 0x7D04, 0x3092, 0x4F5C, 0x6210, 0x3057, 0x3066,
     0x304F, 0x3060, 0x3055, 0x3044, 0x3002])"

text \<open>The dictionary \<open>types\<close> of \<open>build_prompt\<close>, and \<open>dict.get\<close> with a default.\<close>

definition types :: "pystr \<rightharpoonup> pystr \<times> pystr" where
  "types = map_of
     [(ascii ''meeting'', meeting_spec),
      (ascii ''presentation'', presentation_spec),
      (ascii ''general'', general_spec)]"

definition dict_get :: "('k \<rightharpoonup> 'v) \<Rightarrow> 'k \<Rightarrow> 'v \<Rightarrow> 'v" where
  "dict_get d k dflt = (case d k of None \<Rightarrow> dflt | Some v \<Rightarrow> v)"

text \<open>The first line of the glossary section, without its line end.\<close>

definition glossary_heading :: pystr where
  "glossary_heading =
     [0x4EE5, 0x4E0B, 0x306E, 0x5C02, 0x9580, 0x7528, 0x8A9E, 0x3092, 0x9069, 0x5207,
     0x306B, 0x4F7F, 0x7528, 0x3057, 0x3066, 0x304F, 0x3060, 0x3055, 0x3044] @ ascii '':''"

text \<open>The fixed lines before and after the transcript.\<close>

definition transcript_open :: pystr where
  "transcript_open =
     ascii ''\<newline>'' @ [0x6587, 0x5B57, 0x8D77, 0x3053, 0x3057]
     @ ascii '':\<newline>---\<newline>''"

definition transcript_close :: pystr where
  "transcript_close =
     ascii ''\<newline>---\<newline>'' @ [0x8981, 0x7D04] @ ascii '' (Markdown):''"

definition bullet :: "pystr \<Rightarrow> pystr" where
  "bullet t = ascii ''- '' @ t"

definition term_section :: "pystr list \<Rightarrow> pystr" where
  "term_section terms =
     (if terms = [] then []
      else glossary_heading @ ascii ''\<newline>'' @ join (ascii ''\<newline>'') (map bullet terms))"

text \<open>
  \<open>types['general']\<close> is evaluated before the lookup; the key is in the literal
  dictionary, so it is the entry \<open>general_spec\<close>.
\<close>

definition build_prompt :: "pystr \<Rightarrow> pystr list \<Rightarrow> pystr \<Rightarrow> pystr \<times> pystr" where
  "build_prompt transcript terms prompt_type =
     (let (core, sys_msg) = dict_get types prompt_type general_spec;
          prompt = core @ ascii ''\<newline>'' @ term_section terms @ transcript_open
                   @ transcript @ transcript_close
      in (prompt, sys_msg))"

section \<open>The world outside the script\<close>

text \<open>
  The script reads the file system and the clock and calls two services. What they answer
  is a parameter of the model: the record \<open>env\<close>. What the script does to them is
  recorded, in order, in the \<open>trace\<close> of the \<open>world\<close>, which also holds the files the script
  has written. Logging is left out: no call of the logger changes what the script does next.
\<close>

text \<open>
  What \<open>AudioSegment.from_file\<close> does: it returns the decoded audio, whose \<open>len\<close> is its
  duration in milliseconds, or raises \<open>CouldntDecodeError\<close>, or raises something else.
\<close>

datatype decode_result = Decoded nat | CouldntDecodeError | DecodeException

text \<open>
  What \<open>client.chat.completions.create\<close> does: it raises, or returns a response whose
  \<open>choices\<close> each hold a message content, which may be \<open>None\<close>.
\<close>

datatype chat_response = ChatFailed | Choices "pystr option list"

record datetime =
  year :: nat
  month :: nat
  day :: nat
  hour :: nat
  minute :: nat
  second :: nat
  microsecond :: nat

text \<open>
  The answer of the transcription service may depend on how many calls were made before
  this one as well as on the file sent; \<open>None\<close> is a call that raises. \<open>readable\<close> says
  whether \<open>open(path, "rb")\<close> succeeds: a file that exists need not be readable.
\<close>

record env =
  isfile :: "pystr \<Rightarrow> bool"
  getsize :: "pystr \<Rightarrow> nat"
  from_file :: "pystr \<Rightarrow> decode_result"
  mkdtemp :: pystr
  export_ok :: "pystr \<Rightarrow> bool"
  readable :: "pystr \<Rightarrow> bool"
  whisper :: "nat \<Rightarrow> pystr \<Rightarrow> pystr option"
  special_terms_file :: glossary_source
  chat :: "pystr \<Rightarrow> pystr \<Rightarrow> chat_response"
  now :: datetime
  makedirs_ok :: "pystr \<Rightarrow> bool"
  open_ok :: "pystr \<Rightarrow> bool"

datatype event =
    EvDecode pystr
  | EvMkTemp pystr
  | EvExport nat nat nat pystr pystr
  | EvTranscribe pystr "pystr option"
  | EvRmTemp pystr
  | EvChat pystr pystr chat_response
  | EvPrint pystr
  | EvMakedirs pystr
  | EvOpenWrite pystr
  | EvWrite pystr pystr

text \<open>
  \<open>EvExport idx start end path format\<close> is the export of \<open>audio[start:end]\<close> in iteration
  \<open>idx\<close> of the loop; \<open>EvTranscribe path answer\<close> is one call of the transcription
  service with its answer; \<open>EvChat sys_msg prompt answer\<close> is the call of the
  summarization service.
\<close>

record world =
  trace :: "event list"
  files :: "pystr \<rightharpoonup> pystr"

definition emit :: "event \<Rightarrow> world \<Rightarrow> world" where
  "emit ev w = w\<lparr>trace := trace w @ [ev]\<rparr>"

fun is_transcribe :: "event \<Rightarrow> bool" where
  "is_transcribe (EvTranscribe p a) = True"
| "is_transcribe ev = False"

definition calls_made :: "world \<Rightarrow> nat" where
  "calls_made w = length (filter is_transcribe (trace w))"

text \<open>
  A result that is not a return value, at another type. It is only ever applied to an
  exception or an exit; the third equation makes the function total.
\<close>

fun propagate :: "'a result \<Rightarrow> 'b result" where
  "propagate (Raised x) = Raised x"
| "propagate (SysExit n) = SysExit n"
| "propagate (Returned v) = SysExit 0"

section \<open>Transcription\<close>

text \<open>
  \<open>_transcribe_chunk\<close> opens the file for reading before it calls the service; when the
  file cannot be opened, the exception leaves the function and no call is made.
\<close>

definition transcribe_chunk :: "env \<Rightarrow> world \<Rightarrow> pystr \<Rightarrow> pystr result \<times> world" where
  "transcribe_chunk e w path =
     (if \<not> readable e path then (Raised OSError, w)
      else
        let answer = whisper e (calls_made w) path;
            w' = emit (EvTranscribe path answer) w
        in case answer of
             None \<Rightarrow> (Raised TranscriptionError, w')
           | Some text \<Rightarrow> (Returned text, w'))"

text \<open>\<open>audio[start:stop]\<close> of an audio of \<open>n\<close> milliseconds: both ends are cut at \<open>n\<close>.\<close>

definition slice_ms :: "nat \<Rightarrow> nat \<Rightarrow> nat \<Rightarrow> nat \<times> nat" where
  "slice_ms n start stop = (min start n, min stop n)"

definition chunk_separator :: pystr where
  "chunk_separator =
     ascii ''\<newline>\<newline>--- ('' @ [0x6B21, 0x306E, 0x30C1, 0x30E3, 0x30F3, 0x30AF]
     @ ascii '') ---\<newline>\<newline>''"

text \<open>
  The body of the \<open>for\<close> loop over \<open>enumerate(range(0, len(audio), AUDIO_CHUNK_LENGTH_MS))\<close>,
  with the list \<open>transcripts\<close> as an accumulator.
\<close>

fun chunk_loop ::
  "env \<Rightarrow> nat \<Rightarrow> pystr \<Rightarrow> pystr \<Rightarrow> (nat \<times> nat) list \<Rightarrow> pystr list \<Rightarrow> world
     \<Rightarrow> pystr list result \<times> world" where
  "chunk_loop e n ext tmpdir [] transcripts w = (Returned transcripts, w)"
| "chunk_loop e n ext tmpdir ((idx, start) # rest) transcripts w =
     (let (a, b) = slice_ms n start (start + AUDIO_CHUNK_LENGTH_MS);
          chunk_path = path_join tmpdir (ascii ''chunk_'' @ str_nat idx @ ext);
          w1 = emit (EvExport idx a b chunk_path (dropWhile (\<lambda>c. c = 46) ext)) w
      in if \<not> export_ok e chunk_path then (Raised ExportError, w1)
         else case transcribe_chunk e w1 chunk_path of
                (Returned text, w2) \<Rightarrow> chunk_loop e n ext tmpdir rest (transcripts @ [text]) w2
              | (r, w2) \<Rightarrow> (propagate r, w2))"

text \<open>
  \<open>size_mb <= MAX_FILE_SIZE_MB\<close> compares the float \<open>getsize / 2^20\<close> with 25. Division by
  a power of two is exact and rounding is monotone, so the comparison holds exactly when
  the size in bytes is at most \<open>25 * 2^20\<close>; the model compares the integers.
\<close>

definition transcribe_audio :: "env \<Rightarrow> world \<Rightarrow> pystr \<Rightarrow> pystr result \<times> world" where
  "transcribe_audio e w path =
     (if \<not> isfile e path then (SysExit 1, w)
      else if getsize e path \<le> MAX_FILE_SIZE_MB * (1024 * 1024) then transcribe_chunk e w path
      else
        let w1 = emit (EvDecode path) w in
        case from_file e path of
          CouldntDecodeError \<Rightarrow> (SysExit 1, w1)
        | DecodeException \<Rightarrow> (SysExit 1, w1)
        | Decoded n \<Rightarrow>
            let (base, ext) = splitext (basename path);
                tmpdir = mkdtemp e;
                w2 = emit (EvMkTemp tmpdir) w1;
                (r, w3) = chunk_loop e n ext tmpdir
                            (enumerate 0 (py_range 0 n AUDIO_CHUNK_LENGTH_MS)) [] w2;
                w4 = emit (EvRmTemp tmpdir) w3
            in (case r of
                  Returned transcripts \<Rightarrow> (Returned (join chunk_separator transcripts), w4)
                | _ \<Rightarrow> (propagate r, w4)))"

section \<open>Summarization\<close>

text \<open>
  Everything inside the \<open>try\<close> that raises ends in \<open>sys.exit(1)\<close>: the call itself,
  \<open>choices[0]\<close> of an empty list, and \<open>.strip()\<close> of a content that is \<open>None\<close>.
\<close>

definition summarize_transcript ::
  "env \<Rightarrow> world \<Rightarrow> pystr \<Rightarrow> pystr list \<Rightarrow> pystr \<Rightarrow> pystr result \<times> world" where
  "summarize_transcript e w transcript terms prompt_type =
     (let (prompt, sys_msg) = build_prompt transcript terms prompt_type;
          answer = chat e sys_msg prompt;
          w1 = emit (EvChat sys_msg prompt answer) w
      in case answer of
           ChatFailed \<Rightarrow> (SysExit 1, w1)
         | Choices [] \<Rightarrow> (SysExit 1, w1)
         | Choices (None # cs) \<Rightarrow> (SysExit 1, w1)
         | Choices (Some content # cs) \<Rightarrow> (Returned (strip content), w1))"

section \<open>The entry point\<close>

text \<open>
  \<open>strftime("%Y%m%d_%H%M")\<close>: the year in decimal, which the C library of the platform
  does not pad (a year from 1000 on has its four digits), then month, day, hour and
  minute in two digits each.
\<close>

definition strftime_YmdHM :: "datetime \<Rightarrow> pystr" where
  "strftime_YmdHM t =
     str_nat (year t) @ zfill 2 (str_nat (month t)) @ zfill 2 (str_nat (day t))
     @ ascii ''_'' @ zfill 2 (str_nat (hour t)) @ zfill 2 (str_nat (minute t))"

definition transcript_banner :: pystr where
  "transcript_banner =
     ascii ''=== '' @ [0x6587, 0x5B57, 0x8D77, 0x3053, 0x3057] @ ascii '' ===\<newline>''"

definition summary_banner :: pystr where
  "summary_banner =
     ascii ''\<newline>=== '' @ [0x8981, 0x7D04] @ ascii '' ===\<newline>''"

definition md_heading :: pystr where
  "md_heading =
     ascii ''# '' @ [0x8981, 0x7D04] @ ascii '': ''"

text \<open>\<open>print(a, b)\<close> writes \<open>a\<close>, a space, \<open>b\<close> and a line end.\<close>

definition print2 :: "pystr \<Rightarrow> pystr \<Rightarrow> world \<Rightarrow> world" where
  "print2 a b w = emit (EvPrint (a @ ascii '' '' @ b @ ascii ''\<newline>'')) w"

text \<open>Opening a file for writing empties it; \<open>f.write\<close> appends to it.\<close>

definition open_write :: "pystr \<Rightarrow> world \<Rightarrow> world" where
  "open_write p w = emit (EvOpenWrite p) (w\<lparr>files := (files w)(p \<mapsto> [])\<rparr>)"

definition file_write :: "pystr \<Rightarrow> pystr \<Rightarrow> world \<Rightarrow> world" where
  "file_write p s w =
     emit (EvWrite p s) (w\<lparr>files := (files w)(p \<mapsto> (case files w p of None \<Rightarrow> s | Some old \<Rightarrow> old @ s))\<rparr>)"

text \<open>
  \<open>main\<close> after \<open>parse_args\<close>: \<open>audio_file\<close> and \<open>prompt_type\<close> are the two parsed
  arguments.
\<close>

definition main :: "env \<Rightarrow> world \<Rightarrow> pystr \<Rightarrow> pystr \<Rightarrow> unit result \<times> world" where
  "main e w audio_file prompt_type =
     (case transcribe_audio e w audio_file of
        (Returned transcript, w1) \<Rightarrow>
          (case load_special_terms (special_terms_file e) of
             Returned terms \<Rightarrow>
               (case summarize_transcript e w1 transcript terms prompt_type of
                  (Returned summary, w2) \<Rightarrow>
                    (let w3 = print2 summary_banner summary (print2 transcript_banner transcript w2);
                         output_dir = strftime_YmdHM (now e);
                         w4 = emit (EvMakedirs output_dir) w3
                     in if \<not> makedirs_ok e output_dir then (Raised OSError, w4)
                        else
                          let base = fst (splitext (basename audio_file));
                              md_path = path_join output_dir (base @ ascii ''.md'')
                          in if \<not> open_ok e md_path then (Raised OSError, w4)
                             else
                               let w5 = open_write md_path w4;
                                   w6 = file_write md_path
                                          (md_heading @ base @ ascii ''\<newline>\<newline>'') w5;
                                   w7 = file_write md_path summary w6
                               in (Returned (), w7))
                | (r, w2) \<Rightarrow> (propagate r, w2))
           | r \<Rightarrow> (propagate r, w1))
      | (r, w1) \<Rightarrow> (propagate r, w1))"

section \<open>Reading a trace\<close>

text \<open>The file a chunk is exported to: \<open>os.path.join(tmpdir, f"chunk_{idx}{ext}")\<close>.\<close>

definition chunk_path :: "pystr \<Rightarrow> pystr \<Rightarrow> nat \<Rightarrow> pystr" where
  "chunk_path tmpdir ext idx = path_join tmpdir (ascii ''chunk_'' @ str_nat idx @ ext)"

text \<open>
  The events of one iteration of the chunk loop on an audio of \<open>n\<close> milliseconds: the
  export of the slice, and the export followed by the transcription call on the exported
  file.
\<close>

definition export_event :: "nat \<Rightarrow> pystr \<Rightarrow> pystr \<Rightarrow> nat \<times> nat \<Rightarrow> event" where
  "export_event n ext tmpdir x =
     EvExport (fst x) (min (snd x) n) (min (snd x + AUDIO_CHUNK_LENGTH_MS) n)
       (chunk_path tmpdir ext (fst x)) (dropWhile (\<lambda>c. c = 46) ext)"

definition iteration_events ::
  "nat \<Rightarrow> pystr \<Rightarrow> pystr \<Rightarrow> nat \<times> nat \<Rightarrow> pystr option \<Rightarrow> event list" where
  "iteration_events n ext tmpdir x answer =
     [EvExport (fst x) (min (snd x) n) (min (snd x + AUDIO_CHUNK_LENGTH_MS) n)
        (chunk_path tmpdir ext (fst x)) (dropWhile (\<lambda>c. c = 46) ext),
      EvTranscribe (chunk_path tmpdir ext (fst x)) answer]"

text \<open>Index, start and end of the slice taken in the iteration \<open>(idx, start)\<close>.\<close>

definition chunk_bounds :: "nat \<Rightarrow> nat \<times> nat \<Rightarrow> nat \<times> nat \<times> nat" where
  "chunk_bounds n x = (fst x, min (snd x) n, min (snd x + AUDIO_CHUNK_LENGTH_MS) n)"

text \<open>The chunks of a trace: index, start and end of every exported slice, in order.\<close>

fun chunks_of :: "event list \<Rightarrow> (nat \<times> nat \<times> nat) list" where
  "chunks_of [] = []"
| "chunks_of (EvExport idx a b p f # evs) = (idx, a, b) # chunks_of evs"
| "chunks_of (ev # evs) = chunks_of evs"

fun is_chunking :: "event \<Rightarrow> bool" where
  "is_chunking (EvDecode p) = True"
| "is_chunking (EvMkTemp p) = True"
| "is_chunking (EvExport idx a b p f) = True"
| "is_chunking (EvRmTemp p) = True"
| "is_chunking ev = False"

text \<open>
  A service call that failed: a transcription call that raised, or a summarization call
  that raised or whose response has no first choice with a text.
\<close>

fun call_failed :: "event \<Rightarrow> bool" where
  "call_failed (EvTranscribe p None) = True"
| "call_failed (EvChat s q ChatFailed) = True"
| "call_failed (EvChat s q (Choices [])) = True"
| "call_failed (EvChat s q (Choices (None # cs))) = True"
| "call_failed ev = False"

fun is_service_call :: "event \<Rightarrow> bool" where
  "is_service_call (EvTranscribe p a) = True"
| "is_service_call (EvChat s q a) = True"
| "is_service_call ev = False"

text \<open>What the script puts out: what it prints and what it does to the output directory.\<close>

fun is_output :: "event \<Rightarrow> bool" where
  "is_output (EvPrint s) = True"
| "is_output (EvMakedirs p) = True"
| "is_output (EvOpenWrite p) = True"
| "is_output (EvWrite p s) = True"
| "is_output ev = False"

text \<open>The events after the first failed service call.\<close>

fun after_failure :: "event list \<Rightarrow> event list" where
  "after_failure [] = []"
| "after_failure (ev # evs) = (if call_failed ev then evs else after_failure evs)"

text \<open>
  An environment to run the script in: an audio file of 30 000 000 bytes and one hour and
  one millisecond, files that can all be opened, a transcription service that answers
  call \<open>k\<close> with \<open>part\<close> and the number \<open>k\<close>, no glossary file and a summarization service
  with one answer.
\<close>

definition sample_env :: env where
  "sample_env =
     \<lparr>isfile = (\<lambda>p. True), getsize = (\<lambda>p. 30000000), from_file = (\<lambda>p. Decoded 3600001),
      mkdtemp = ascii ''/tmp/t'', export_ok = (\<lambda>p. True), readable = (\<lambda>p. True),
      whisper = (\<lambda>k p. Some (ascii ''part'' @ str_nat k)),
      special_terms_file = Absent,
      chat = (\<lambda>s q. Choices [Some (ascii '' ok\<newline>'')]),
      now = \<lparr>year = 2025, month = 1, day = 2, hour = 3, minute = 4, second = 5,
              microsecond = 6\<rparr>,
      makedirs_ok = (\<lambda>p. True), open_ok = (\<lambda>p. True)\<rparr>"

text \<open>The same, with a transcription service that fails on its second call.\<close>

definition failing_env :: env where
  "failing_env =
     sample_env\<lparr>whisper := \<lambda>k p. if k = 1 then None else Some (ascii ''part'' @ str_nat k)\<rparr>"

text \<open>The same, with files that exist and cannot be opened for reading.\<close>

definition unreadable_env :: env where
  "unreadable_env = sample_env\<lparr>readable := \<lambda>p. False\<rparr>"

definition empty_world :: world where
  "empty_world = \<lparr>trace = [], files = Map.empty\<rparr>"

section \<open>The glossary loader: lines and stripping\<close>



lemma rstrip_prefix: "s = rstrip s @ rev (takeWhile is_space (rev s))"
proof -
  have "rev (takeWhile is_space (rev s) @ dropWhile is_space (rev s)) = s" by simp
  then show ?thesis unfolding rstrip_def rev_append by simp
qed

lemma concat_map_if:
  "concat (map (\<lambda>x. if P x then [f x] else []) xs) = map f (filter P xs)"
  by (induction xs) simp_all

lemma hd_rstrip: "rstrip s \<noteq> [] \<Longrightarrow> hd (rstrip s) = hd s"
  using rstrip_prefix [of s] by (metis hd_append2)



lemma strip_hash_line:
  assumes "\<forall>c \<in> set ws. is_space c"
  shows "strip (ws @ 35 # rest) \<noteq> [] \<and> hd (strip (ws @ 35 # rest)) = 35"
proof -
  have h: "\<not> is_space 35" by (simp add: is_space_def)
  have l: "lstrip (ws @ 35 # rest) = 35 # rest"
    using assms h by (simp add: lstrip_def dropWhile_append3)
  have "dropWhile is_space (rev rest @ [35]) \<noteq> []"
    using h by simp
  then have ne: "rstrip (35 # rest) \<noteq> []" by (simp add: rstrip_def)
  then have "hd (rstrip (35 # rest)) = 35" using hd_rstrip [of "35 # rest"] by simp
  with ne l show ?thesis by (simp add: strip_def)
qed



text \<open>
  Claim C10. The comment test looks at the raw line, before stripping: a line of the
  glossary file that is non-empty white space followed by \<open>#\<close> is not dropped; its
  stripped form, which starts with \<open>#\<close>, is one of the returned terms.
\<close>

theorem indented_hash_line_is_a_term:
  assumes "ws \<noteq> []" and "\<forall>c \<in> set ws. is_space c"
    and "ws @ 35 # rest \<in> set (file_lines text)"
  shows "\<exists>ts. load_special_terms (TextFile text) = Returned ts \<and>
           strip (ws @ 35 # rest) \<in> set ts \<and>
           startswith (strip (ws @ 35 # rest)) (ascii ''#'')"
proof -
  let ?ln = "ws @ 35 # rest"
  have s: "strip ?ln \<noteq> [] \<and> hd (strip ?ln) = 35" using strip_hash_line assms(2) by blast
  have "hd ?ln = hd ws" using assms(1) by simp
  moreover have "is_space (hd ws)" using assms(1,2) by simp
  ultimately have "hd ?ln \<noteq> 35" by (auto simp: is_space_def)
  then have "\<not> startswith ?ln (ascii ''#'')"
    using assms(1) by (cases ws) (auto simp: startswith_def ascii_def)
  with s assms(3) have "strip ?ln \<in> set (map strip (filter (\<lambda>ln. strip ln \<noteq> [] \<and> \<not> startswith ln (ascii ''#''))
                 (file_lines text)))" by auto
  moreover have "startswith (strip ?ln) (ascii ''#'')"
    using s by (cases "strip ?ln") (auto simp: startswith_def ascii_def)
  ultimately show ?thesis by (simp add: load_special_terms_def concat_map_if)
qed

text \<open>The line \<open>"  # note"\<close> gives the term \<open>"# note"\<close>.\<close>

theorem indented_hash_line_is_a_term_witness:
  "load_special_terms (TextFile (ascii ''  # note\<newline>'')) = Returned [ascii ''# note'']
   \<and> (\<exists>ts. load_special_terms (TextFile (ascii ''  # note\<newline>'')) = Returned ts \<and>
           strip (ascii ''  # note\<newline>'') \<in> set ts \<and>
           startswith (strip (ascii ''  # note\<newline>'')) (ascii ''#''))"
proof -
  have l: "file_lines (ascii ''  # note\<newline>'') = [ascii ''  # note\<newline>'']"
    by (simp add: file_lines_def ascii_def)
  have eq: "ascii ''  # note\<newline>'' = ascii ''  '' @ 35 # ascii '' note\<newline>''"
    by (simp add: ascii_def)
  have sp: "\<forall>c \<in> set (ascii ''  ''). is_space c" by (simp add: ascii_def is_space_def)
  have ne: "ascii ''  '' \<noteq> []" by (simp add: ascii_def)
  have "load_special_terms (TextFile (ascii ''  # note\<newline>'')) = Returned [ascii ''# note'']"
    by (simp add: load_special_terms_def file_lines_def ascii_def strip_def lstrip_def
        rstrip_def is_space_def startswith_def)
  moreover have "\<exists>ts. load_special_terms (TextFile (ascii ''  # note\<newline>'')) = Returned ts \<and>
           strip (ascii ''  # note\<newline>'') \<in> set ts \<and>
           startswith (strip (ascii ''  # note\<newline>'')) (ascii ''#'')"
    using indented_hash_line_is_a_term [OF ne sp, of "ascii '' note\<newline>''" "ascii ''  # note\<newline>''"]
    unfolding l eq [symmetric] by simp
  ultimately show ?thesis by (rule conjI)
qed

section \<open>The prompt builder\<close>

lemma types_cases:
  "dict_get types p general_spec = meeting_spec \<or>
   dict_get types p general_spec = presentation_spec \<or>
   dict_get types p general_spec = general_spec"
  by (simp add: dict_get_def types_def)

lemma types_general: "dict_get types (ascii ''general'') general_spec = general_spec"
  by (simp add: dict_get_def types_def ascii_def)

lemma fst_build_prompt:
  "fst (build_prompt transcript terms p) =
     fst (dict_get types p general_spec) @ ascii ''\<newline>'' @ term_section terms
     @ transcript_open @ transcript @ transcript_close"
  by (simp add: build_prompt_def split_def Let_def)

lemma snd_build_prompt:
  "snd (build_prompt transcript terms p) = snd (dict_get types p general_spec)"
  by (simp add: build_prompt_def split_def Let_def)

text \<open>
  Claim C6. A prompt type that is none of \<open>general\<close>, \<open>meeting\<close> and \<open>presentation\<close>
  gives the same prompt and the same system message as \<open>general\<close>, for every transcript
  and every list of glossary terms. \<open>build_prompt\<close> has no failing branch: the lookup
  takes the default.
\<close>

theorem unknown_prompt_type_is_general:
  assumes "prompt_type \<notin> {ascii ''general'', ascii ''meeting'', ascii ''presentation''}"
  shows "build_prompt transcript terms prompt_type
         = build_prompt transcript terms (ascii ''general'')"
proof -
  have "types prompt_type = None" using assms by (simp add: types_def)
  then have "dict_get types prompt_type general_spec = general_spec"
    by (simp add: dict_get_def)
  then show ?thesis by (simp add: build_prompt_def types_general)
qed

text \<open>The prompt type \<open>unknown_value\<close>.\<close>

theorem unknown_prompt_type_is_general_witness:
  "build_prompt (ascii ''hello'') [ascii ''foo''] (ascii ''unknown_value'')
   = build_prompt (ascii ''hello'') [ascii ''foo''] (ascii ''general'')"
proof -
  have "ascii ''unknown_value'' \<notin> {ascii ''general'', ascii ''meeting'', ascii ''presentation''}"
    by (simp add: ascii_def)
  then show ?thesis by (rule unknown_prompt_type_is_general)
qed

lemma sublist_split_at:
  assumes "c \<notin> set h" and "sublist h (xs @ c # ys)"
  shows "sublist h xs \<or> sublist h ys"
proof -
  from assms(2) consider "sublist h xs" | "sublist h (c # ys)"
    | xs1 xs2 where "h = xs1 @ xs2" "suffix xs1 xs" "prefix xs2 (c # ys)"
    by (auto simp: sublist_append)
  then show ?thesis
  proof cases
    case 1
    then show ?thesis by simp
  next
    case 2
    then have "prefix h (c # ys) \<or> sublist h ys" by (simp add: sublist_Cons_right)
    then show ?thesis
    proof
      assume "prefix h (c # ys)"
      with assms(1) have "h = []" by (cases h) auto
      then show ?thesis by simp
    next
      assume "sublist h ys"
      then show ?thesis by simp
    qed
  next
    case 3
    from 3(1) assms(1) have "c \<notin> set xs2" by simp
    with 3(3) have "xs2 = []" by (cases xs2) auto
    with 3(1,2) have "suffix h xs" by simp
    then show ?thesis by simp
  qed
qed

lemma sublist_between:
  assumes "c \<notin> set h" and "d \<in> set h" and "d \<notin> set a" and "d \<notin> set b"
    and "sublist h (a @ c # t @ c # b)"
  shows "sublist h t"
proof -
  have na: "\<not> sublist h a" using assms(2,3) set_mono_sublist by fastforce
  have nb: "\<not> sublist h b" using assms(2,4) set_mono_sublist by fastforce
  from sublist_split_at [OF assms(1,5)] na have "sublist h (t @ c # b)" by simp
  from sublist_split_at [OF assms(1) this] nb show ?thesis by simp
qed


lemma heading_no_newline: "10 \<notin> set glossary_heading"
  by (simp add: glossary_heading_def ascii_def)

lemma heading_mark: "0x5C02 \<in> set glossary_heading"
  by (simp add: glossary_heading_def)

lemma core_no_mark: "0x5C02 \<notin> set (fst (dict_get types p general_spec))"
proof -
  have "0x5C02 \<notin> set (fst meeting_spec)" by (simp add: meeting_spec_def ascii_def)
  moreover have "0x5C02 \<notin> set (fst presentation_spec)"
    by (simp add: presentation_spec_def ascii_def)
  moreover have "0x5C02 \<notin> set (fst general_spec)" by (simp add: general_spec_def ascii_def)
  ultimately show ?thesis using types_cases [of p] by auto
qed

lemma open_split: "transcript_open = butlast transcript_open @ [10]"
  by (simp add: transcript_open_def ascii_def)

lemma close_split: "transcript_close = 10 # tl transcript_close"
  by (simp add: transcript_close_def ascii_def)

lemma open_no_mark: "0x5C02 \<notin> set (butlast transcript_open)"
  by (simp add: transcript_open_def ascii_def)

lemma close_no_mark: "0x5C02 \<notin> set (tl transcript_close)"
  by (simp add: transcript_close_def ascii_def)

lemma heading_only_in_transcript:
  assumes "sublist glossary_heading (fst (build_prompt transcript [] p))"
  shows "sublist glossary_heading transcript"
proof -
  let ?a = "fst (dict_get types p general_spec) @ ascii ''\<newline>'' @ butlast transcript_open"
  have "fst (build_prompt transcript [] p) =
        fst (dict_get types p general_spec) @ ascii ''\<newline>'' @ (butlast transcript_open @ [10])
        @ transcript @ (10 # tl transcript_close)"
    by (simp only: fst_build_prompt term_section_def flip: open_split close_split) simp
  then have "fst (build_prompt transcript [] p) = ?a @ 10 # transcript @ 10 # tl transcript_close"
    by simp
  with assms have s: "sublist glossary_heading (?a @ 10 # transcript @ 10 # tl transcript_close)"
    by simp
  have a: "0x5C02 \<notin> set ?a" using core_no_mark [of p] open_no_mark by (simp add: ascii_def)
  show ?thesis
    by (rule sublist_between [OF heading_no_newline heading_mark a close_no_mark s])
qed

text \<open>
  Claim C7, as stated, at a transcript that is itself the instruction line and an empty
  term list: the instruction line occurs in the prompt.
\<close>

theorem heading_in_prompt_without_terms:
  "sublist glossary_heading (fst (build_prompt glossary_heading [] (ascii ''general'')))"
proof -
  have "fst (build_prompt glossary_heading [] (ascii ''general'')) =
        (fst (dict_get types (ascii ''general'') general_spec) @ ascii ''\<newline>''
         @ term_section [] @ transcript_open) @ glossary_heading @ transcript_close"
    by (simp add: fst_build_prompt)
  then show ?thesis unfolding sublist_def by blast
qed

text \<open>
  Claim C7, amended. With an empty term list the prompt is the core instruction, a line
  end, an empty glossary section and the transcript between its delimiter lines; the
  glossary instruction line occurs in it only where the transcript itself contains that
  line. With a non-empty term list the glossary section is the instruction line followed
  by one \<open>- term\<close> line per term, in list order. In both cases the transcript stands,
  unchanged, between a line \<open>---\<close> and a line \<open>---\<close>.
\<close>

theorem glossary_section_of_prompt:
  "(terms = [] \<longrightarrow>
      fst (build_prompt transcript terms prompt_type) =
        fst (dict_get types prompt_type general_spec) @ ascii ''\<newline>''
        @ transcript_open @ transcript @ transcript_close \<and>
      (sublist glossary_heading (fst (build_prompt transcript terms prompt_type))
         \<longrightarrow> sublist glossary_heading transcript)) \<and>
   (terms \<noteq> [] \<longrightarrow>
      fst (build_prompt transcript terms prompt_type) =
        fst (dict_get types prompt_type general_spec) @ ascii ''\<newline>''
        @ glossary_heading @ ascii ''\<newline>''
        @ join (ascii ''\<newline>'') (map (\<lambda>t. ascii ''- '' @ t) terms)
        @ transcript_open @ transcript @ transcript_close) \<and>
   (\<exists>before. transcript_open = before @ ascii ''\<newline>---\<newline>'') \<and>
   (\<exists>after. transcript_close = ascii ''\<newline>---\<newline>'' @ after)"
proof -
  have a: "terms = [] \<longrightarrow>
      fst (build_prompt transcript terms prompt_type) =
        fst (dict_get types prompt_type general_spec) @ ascii ''\<newline>''
        @ transcript_open @ transcript @ transcript_close \<and>
      (sublist glossary_heading (fst (build_prompt transcript terms prompt_type))
         \<longrightarrow> sublist glossary_heading transcript)"
  proof (intro impI conjI)
    assume e: "terms = []"
    show "fst (build_prompt transcript terms prompt_type) =
        fst (dict_get types prompt_type general_spec) @ ascii ''\<newline>''
        @ transcript_open @ transcript @ transcript_close"
      by (simp add: e fst_build_prompt term_section_def)
    assume "sublist glossary_heading (fst (build_prompt transcript terms prompt_type))"
    then show "sublist glossary_heading transcript"
      unfolding e by (rule heading_only_in_transcript)
  qed
  have m: "map bullet terms = map (\<lambda>t. ascii ''- '' @ t) terms"
    by (simp add: bullet_def)
  have b: "terms \<noteq> [] \<longrightarrow>
      fst (build_prompt transcript terms prompt_type) =
        fst (dict_get types prompt_type general_spec) @ ascii ''\<newline>''
        @ glossary_heading @ ascii ''\<newline>''
        @ join (ascii ''\<newline>'') (map (\<lambda>t. ascii ''- '' @ t) terms)
        @ transcript_open @ transcript @ transcript_close"
    by (simp add: fst_build_prompt term_section_def m)
  have c: "\<exists>before. transcript_open = before @ ascii ''\<newline>---\<newline>''"
    by (rule exI [where x = "ascii ''\<newline>'' @ [0x6587, 0x5B57, 0x8D77, 0x3053, 0x3057] @ ascii '':''"])
      (simp add: transcript_open_def ascii_def)
  have d: "\<exists>after. transcript_close = ascii ''\<newline>---\<newline>'' @ after"
    by (rule exI [where x = "[0x8981, 0x7D04] @ ascii '' (Markdown):''"])
      (simp add: transcript_close_def ascii_def)
  show ?thesis by (intro conjI) (rule a b c d)+
qed

text \<open>A meeting prompt with two terms, and with none.\<close>

theorem glossary_section_of_prompt_witness:
  "fst (build_prompt (ascii ''hi'') [ascii ''foo'', ascii ''bar''] (ascii ''meeting'')) =
     fst meeting_spec @ ascii ''\<newline>'' @ glossary_heading
     @ ascii ''\<newline>- foo\<newline>- bar'' @ transcript_open @ ascii ''hi'' @ transcript_close \<and>
   fst (build_prompt (ascii ''hi'') [] (ascii ''meeting'')) =
     fst meeting_spec @ ascii ''\<newline>'' @ transcript_open @ ascii ''hi'' @ transcript_close"
proof -
  have t: "dict_get types (ascii ''meeting'') general_spec = meeting_spec"
    by (simp add: dict_get_def types_def)
  have j: "ascii ''\<newline>'' @ join (ascii ''\<newline>'') (map (\<lambda>t. ascii ''- '' @ t) [ascii ''foo'', ascii ''bar''])
           = ascii ''\<newline>- foo\<newline>- bar''"
    by (simp add: ascii_def)
  have ne: "[ascii ''foo'', ascii ''bar''] \<noteq> []" by simp
  have "fst (build_prompt (ascii ''hi'') [ascii ''foo'', ascii ''bar''] (ascii ''meeting'')) =
        fst meeting_spec @ ascii ''\<newline>'' @ glossary_heading
        @ (ascii ''\<newline>'' @ join (ascii ''\<newline>'') (map (\<lambda>t. ascii ''- '' @ t) [ascii ''foo'', ascii ''bar'']))
        @ transcript_open @ ascii ''hi'' @ transcript_close"
    using glossary_section_of_prompt
      [of "[ascii ''foo'', ascii ''bar'']" "ascii ''hi''" "ascii ''meeting''",
       THEN conjunct2, THEN conjunct1, rule_format, OF ne]
    by (simp only: t append_assoc)
  then have 1: "fst (build_prompt (ascii ''hi'') [ascii ''foo'', ascii ''bar''] (ascii ''meeting'')) =
     fst meeting_spec @ ascii ''\<newline>'' @ glossary_heading
     @ ascii ''\<newline>- foo\<newline>- bar'' @ transcript_open @ ascii ''hi'' @ transcript_close"
    by (simp only: j)
  have 2: "fst (build_prompt (ascii ''hi'') [] (ascii ''meeting'')) =
     fst meeting_spec @ ascii ''\<newline>'' @ transcript_open @ ascii ''hi'' @ transcript_close"
    using glossary_section_of_prompt
      [of "[]" "ascii ''hi''" "ascii ''meeting''", THEN conjunct1, rule_format, OF refl,
       THEN conjunct1]
    by (simp only: t)
  show ?thesis by (rule conjI [OF 1 2])
qed

section \<open>The chunk loop\<close>

lemma ceil_div_step:
  fixes d step :: nat
  assumes "0 < step" "0 < d"
  shows "(d + step - 1) div step = Suc ((d - step + step - 1) div step)"
proof (cases "step \<le> d")
  case True
  then have e1: "d - step + step - 1 = d - 1" by simp
  have e2: "d + step - 1 = (d - 1) + step" using assms by simp
  have "(d + step - 1) div step = ((d - 1) + step) div step" by (simp only: e2)
  also have "\<dots> = Suc ((d - 1) div step)" using assms(1) div_add_self2 [of step "d - 1"] by simp
  finally show ?thesis by (simp only: e1)
next
  case False
  then have "d - step = 0" by simp
  moreover have "(d + step - 1) div step = 1"
  proof -
    have "step \<le> d + step - 1" "d + step - 1 < 2 * step" using assms False by simp_all
    then show ?thesis
      by (metis div_nat_eqI mult.commute mult_2 nat_mult_1_right plus_1_eq_Suc)
  qed
  ultimately show ?thesis using assms by simp
qed

lemma upt_0_Suc_map: "[0..<Suc m] = 0 # map Suc [0..<m]"
  by (simp add: upt_conv_Cons map_Suc_upt del: upt_Suc)

lemma py_range_closed:
  "0 < step \<Longrightarrow> py_range a b step = map (\<lambda>k. a + k * step) [0..<(b - a + step - 1) div step]"
proof (induction a b step rule: py_range.induct)
  case (1 a b step)
  show ?case
  proof (cases "b \<le> a")
    case True
    then show ?thesis using 1(2) by (simp add: py_range.simps)
  next
    case False
    let ?m = "(b - (a + step) + step - 1) div step"
    have ih: "py_range (a + step) b step = map (\<lambda>k. a + step + k * step) [0..<?m]"
      using 1 False by simp
    have cnt: "(b - a + step - 1) div step = Suc ?m"
      using ceil_div_step [of step "b - a"] 1(2) False by simp
    have "py_range a b step = a # py_range (a + step) b step"
      using False 1(2) by (subst py_range.simps) simp
    also have "\<dots> = a # map (\<lambda>k. a + step + k * step) [0..<?m]"
      by (simp only: ih)
    also have "\<dots> = map (\<lambda>k. a + k * step) [0..<Suc ?m]"
      by (simp only: upt_0_Suc_map) (simp add: comp_def)
    finally show ?thesis by (simp only: cnt)
  qed
qed

lemma trace_emit [simp]: "trace (emit ev w) = trace w @ [ev]"
  by (simp add: emit_def)

lemma files_emit [simp]: "files (emit ev w) = files w"
  by (simp add: emit_def)

lemma calls_made_emit:
  "calls_made (emit ev w) = (if is_transcribe ev then Suc (calls_made w) else calls_made w)"
  by (simp add: calls_made_def)

lemma transcribe_chunk_eq:
  "readable e p \<Longrightarrow>
   transcribe_chunk e w p =
     ((case whisper e (calls_made w) p of None \<Rightarrow> Raised TranscriptionError | Some text \<Rightarrow> Returned text),
      emit (EvTranscribe p (whisper e (calls_made w) p)) w)"
  by (simp add: transcribe_chunk_def Let_def split: option.splits)

lemma transcribe_chunk_unreadable:
  "\<not> readable e p \<Longrightarrow> transcribe_chunk e w p = (Raised OSError, w)"
  by (simp add: transcribe_chunk_def)

lemma iteration_events_eq:
  "iteration_events n ext tmpdir x answer =
     [export_event n ext tmpdir x, EvTranscribe (chunk_path tmpdir ext (fst x)) answer]"
  by (simp add: iteration_events_def export_event_def)

lemma chunk_loop_step:
  "chunk_loop e n ext tmpdir (x # rest) transcripts w =
     (let w1 = emit (export_event n ext tmpdir x) w;
          answer = whisper e (calls_made w) (chunk_path tmpdir ext (fst x));
          w2 = emit (EvTranscribe (chunk_path tmpdir ext (fst x)) answer) w1
      in if \<not> export_ok e (chunk_path tmpdir ext (fst x)) then (Raised ExportError, w1)
         else if \<not> readable e (chunk_path tmpdir ext (fst x)) then (Raised OSError, w1)
         else case answer of
                None \<Rightarrow> (Raised TranscriptionError, w2)
              | Some text \<Rightarrow> chunk_loop e n ext tmpdir rest (transcripts @ [text]) w2)"
  by (cases x)
    (simp add: Let_def slice_ms_def export_event_def chunk_path_def transcribe_chunk_eq
      transcribe_chunk_unreadable calls_made_emit split: option.splits)

lemma export_event_facts:
  "chunks_of (export_event n ext tmpdir x # evs) = chunk_bounds n x # chunks_of evs"
  "\<not> call_failed (export_event n ext tmpdir x)" "\<not> is_output (export_event n ext tmpdir x)"
  "\<not> is_service_call (export_event n ext tmpdir x)"
  "\<not> is_transcribe (export_event n ext tmpdir x)"
  by (simp_all add: export_event_def chunk_bounds_def)

text \<open>
  The trace of the loop in every case: the iterations whose call was answered, then
  nothing more (the loop returns), or the export of the next chunk alone (the export or
  the opening of the exported file raised), or that export and a call that raised.
\<close>

lemma chunk_loop_shape:
  "chunk_loop e n ext tmpdir xs acc w = (r, w') \<Longrightarrow>
   \<exists>ts tail. length ts \<le> length xs \<and>
     trace w' = trace w
       @ concat (map (\<lambda>(x, a). iteration_events n ext tmpdir x (Some a)) (zip xs ts)) @ tail \<and>
     (\<forall>i<length ts.
        whisper e (calls_made w + i) (chunk_path tmpdir ext (fst (xs ! i))) = Some (ts ! i)) \<and>
     ((\<exists>ts'. r = Returned ts') \<longrightarrow> length ts = length xs \<and> tail = [] \<and> r = Returned (acc @ ts)) \<and>
     ((\<forall>ts'. r \<noteq> Returned ts') \<longrightarrow>
        length ts < length xs \<and>
        (tail = [export_event n ext tmpdir (xs ! length ts)] \<or>
         tail = iteration_events n ext tmpdir (xs ! length ts) None))"
proof (induction xs arbitrary: acc w)
  case Nil
  then show ?case by auto
next
  case (Cons x rest)
  let ?p = "chunk_path tmpdir ext (fst x)"
  let ?ex = "export_event n ext tmpdir x"
  let ?w1 = "emit ?ex w"
  show ?case
  proof (cases "export_ok e ?p \<and> readable e ?p")
    case False
    with Cons.prems have r: "r = Raised ExportError \<or> r = Raised OSError" and w': "w' = ?w1"
      by (auto simp: chunk_loop_step Let_def simp del: chunk_loop.simps split: if_splits)
    from r have nr: "\<forall>ts'. r \<noteq> Returned ts'" by auto
    show ?thesis
      by (intro exI [where x = "[]"] exI [where x = "[?ex]"]) (use nr w' in simp)
  next
    case True
    show ?thesis
    proof (cases "whisper e (calls_made w) ?p")
      case None
      from None True Cons.prems have r: "r = Raised TranscriptionError"
        and w': "w' = emit (EvTranscribe ?p None) ?w1"
        by (auto simp: chunk_loop_step Let_def simp del: chunk_loop.simps)
      show ?thesis
        by (intro exI [where x = "[]"] exI [where x = "iteration_events n ext tmpdir x None"])
          (use r w' in \<open>simp add: iteration_events_eq\<close>)
    next
      case (Some a)
      let ?w2 = "emit (EvTranscribe ?p (Some a)) ?w1"
      from Some True Cons.prems
      have rest: "chunk_loop e n ext tmpdir rest (acc @ [a]) ?w2 = (r, w')"
        by (auto simp: chunk_loop_step Let_def simp del: chunk_loop.simps)
      from Cons.IH [OF rest] obtain ts tail where
        len: "length ts \<le> length rest" and
        tr: "trace w' = trace ?w2
          @ concat (map (\<lambda>(x, a). iteration_events n ext tmpdir x (Some a)) (zip rest ts)) @ tail" and
        wh: "\<forall>i<length ts.
          whisper e (calls_made ?w2 + i) (chunk_path tmpdir ext (fst (rest ! i))) = Some (ts ! i)" and
        ok: "(\<exists>ts'. r = Returned ts') \<longrightarrow>
               length ts = length rest \<and> tail = [] \<and> r = Returned ((acc @ [a]) @ ts)" and
        bad: "(\<forall>ts'. r \<noteq> Returned ts') \<longrightarrow>
               length ts < length rest \<and>
               (tail = [export_event n ext tmpdir (rest ! length ts)] \<or>
                tail = iteration_events n ext tmpdir (rest ! length ts) None)"
        by blast
      have cm: "calls_made ?w2 = Suc (calls_made w)"
        by (simp add: calls_made_emit export_event_facts)
      have 1: "length (a # ts) \<le> length (x # rest)" using len by simp
      have 2: "trace w' = trace w
          @ concat (map (\<lambda>(x, a). iteration_events n ext tmpdir x (Some a)) (zip (x # rest) (a # ts)))
          @ tail"
        using tr by (simp add: iteration_events_eq)
      have 3: "\<forall>i<length (a # ts).
          whisper e (calls_made w + i) (chunk_path tmpdir ext (fst ((x # rest) ! i)))
            = Some ((a # ts) ! i)"
      proof (intro allI impI)
        fix i assume "i < length (a # ts)"
        then show "whisper e (calls_made w + i) (chunk_path tmpdir ext (fst ((x # rest) ! i)))
            = Some ((a # ts) ! i)"
          using Some wh cm by (cases i) auto
      qed
      have 4: "(\<exists>ts'. r = Returned ts') \<longrightarrow>
               length (a # ts) = length (x # rest) \<and> tail = [] \<and> r = Returned (acc @ a # ts)"
        using ok by simp
      have 5: "(\<forall>ts'. r \<noteq> Returned ts') \<longrightarrow>
               length (a # ts) < length (x # rest) \<and>
               (tail = [export_event n ext tmpdir ((x # rest) ! length (a # ts))] \<or>
                tail = iteration_events n ext tmpdir ((x # rest) ! length (a # ts)) None)"
        using bad by simp
      show ?thesis by (intro exI [where x = "a # ts"] exI [where x = tail] conjI 1 2 3 4 5)
    qed
  qed
qed

text \<open>The loop returns when every export, every opening and every call succeeds.\<close>

lemma chunk_loop_succeeds:
  "\<forall>i<length xs.
      export_ok e (chunk_path tmpdir ext (fst (xs ! i))) \<and>
      readable e (chunk_path tmpdir ext (fst (xs ! i))) \<and>
      whisper e (calls_made w + i) (chunk_path tmpdir ext (fst (xs ! i))) \<noteq> None \<Longrightarrow>
   \<exists>ts w'. chunk_loop e n ext tmpdir xs acc w = (Returned ts, w')"
proof (induction xs arbitrary: acc w)
  case Nil
  then show ?case by simp
next
  case (Cons x rest)
  let ?p = "chunk_path tmpdir ext (fst x)"
  from Cons.prems [rule_format, of 0] obtain a where
    x: "export_ok e ?p" "readable e ?p" "whisper e (calls_made w) ?p = Some a"
    by auto
  let ?w2 = "emit (EvTranscribe ?p (Some a)) (emit (export_event n ext tmpdir x) w)"
  have cm: "calls_made ?w2 = Suc (calls_made w)"
    by (simp add: calls_made_emit export_event_facts)
  have "\<forall>i<length rest.
      export_ok e (chunk_path tmpdir ext (fst (rest ! i))) \<and>
      readable e (chunk_path tmpdir ext (fst (rest ! i))) \<and>
      whisper e (calls_made ?w2 + i) (chunk_path tmpdir ext (fst (rest ! i))) \<noteq> None"
  proof (intro allI impI)
    fix i assume "i < length rest"
    then show "export_ok e (chunk_path tmpdir ext (fst (rest ! i))) \<and>
      readable e (chunk_path tmpdir ext (fst (rest ! i))) \<and>
      whisper e (calls_made ?w2 + i) (chunk_path tmpdir ext (fst (rest ! i))) \<noteq> None"
      using Cons.prems [rule_format, of "Suc i"] by (simp add: cm)
  qed
  from Cons.IH [OF this] obtain ts w' where
    "chunk_loop e n ext tmpdir rest (acc @ [a]) ?w2 = (Returned ts, w')"
    by blast
  then show ?case using x
    by (simp add: chunk_loop_step Let_def del: chunk_loop.simps)
qed

lemma after_failure_append:
  "after_failure (xs @ ys) =
     (if \<exists>x \<in> set xs. call_failed x then after_failure xs @ ys else after_failure ys)"
  by (induction xs) auto

lemma chunk_loop_inv:
  "chunk_loop e n ext tmpdir xs acc w = (r, w') \<Longrightarrow>
   files w' = files w \<and>
   (\<exists>new j. trace w' = trace w @ new \<and> j \<le> length xs \<and>
      chunks_of new = map (chunk_bounds n) (take j xs) \<and>
      ((\<exists>ts. r = Returned ts) \<longrightarrow> j = length xs \<and> (\<forall>x \<in> set new. \<not> call_failed x)) \<and>
      (\<forall>x \<in> set new. \<not> is_output x \<and> (is_service_call x \<longrightarrow> is_transcribe x)) \<and>
      after_failure new = [] \<and> (\<forall>m. r \<noteq> SysExit m))"
proof (induction xs arbitrary: acc w)
  case Nil
  then show ?case by auto
next
  case (Cons x rest)
  let ?p = "chunk_path tmpdir ext (fst x)"
  let ?ex = "export_event n ext tmpdir x"
  let ?w1 = "emit ?ex w"
  note ex = export_event_facts [of n ext tmpdir x]
  show ?case
  proof (cases "export_ok e ?p \<and> readable e ?p")
    case False
    with Cons.prems have r: "r = Raised ExportError \<or> r = Raised OSError" and w': "w' = ?w1"
      by (auto simp: chunk_loop_step Let_def simp del: chunk_loop.simps split: if_splits)
    show ?thesis
      unfolding w'
      by (intro conjI exI [where x = "[?ex]"] exI [where x = 1]) (use ex r in auto)
  next
    case True
    show ?thesis
    proof (cases "whisper e (calls_made w) ?p")
      case None
      let ?tr = "EvTranscribe ?p None"
      from None True Cons.prems have r: "r = Raised TranscriptionError" "w' = emit ?tr ?w1"
        by (auto simp: chunk_loop_step Let_def simp del: chunk_loop.simps)
      show ?thesis
        unfolding r
        by (intro conjI exI [where x = "[?ex, ?tr]"] exI [where x = 1]) (use ex in auto)
    next
      case (Some a)
      let ?tr = "EvTranscribe ?p (Some a)"
      let ?w2 = "emit ?tr ?w1"
      from Some True Cons.prems
      have rest: "chunk_loop e n ext tmpdir rest (acc @ [a]) ?w2 = (r, w')"
        by (auto simp: chunk_loop_step Let_def simp del: chunk_loop.simps)
      from Cons.IH [OF rest] obtain new j where
        f: "files w' = files ?w2" and tr: "trace w' = trace ?w2 @ new" and j: "j \<le> length rest" and
        ch: "chunks_of new = map (chunk_bounds n) (take j rest)" and
        ok: "(\<exists>ts. r = Returned ts) \<longrightarrow> j = length rest \<and> (\<forall>x \<in> set new. \<not> call_failed x)" and
        ev: "\<forall>x \<in> set new. \<not> is_output x \<and> (is_service_call x \<longrightarrow> is_transcribe x)" and
        af: "after_failure new = []" and ne: "\<forall>m. r \<noteq> SysExit m"
        by blast
      have c2: "chunks_of (?ex # ?tr # new) = chunk_bounds n x # chunks_of new"
        by (simp add: ex)
      have a2: "after_failure (?ex # ?tr # new) = after_failure new"
        by (simp add: ex)
      show ?thesis
        by (intro conjI exI [where x = "?ex # ?tr # new"] exI [where x = "Suc j"])
          (use f tr j ch ok ev af ne ex c2 a2 in \<open>auto simp del: chunks_of.simps after_failure.simps\<close>)
    qed
  qed
qed

lemma ceil_div_bounds:
  fixes d l :: nat
  assumes "0 < l"
  shows "d \<le> ((d + l - 1) div l) * l" and "k < (d + l - 1) div l \<Longrightarrow> k * l < d"
    and "d \<le> m' * l \<Longrightarrow> (d + l - 1) div l \<le> m'"
proof -
  let ?m = "(d + l - 1) div l"
  show "d \<le> ?m * l"
  proof (rule ccontr)
    assume "\<not> d \<le> ?m * l"
    then have "Suc ?m * l \<le> d + l - 1" by simp
    then have "Suc ?m \<le> ?m" using assms by (simp only: less_eq_div_iff_mult_less_eq)
    then show False by simp
  qed
  show "k * l < d" if "k < ?m"
  proof -
    from that have "Suc k \<le> ?m" by simp
    then have "Suc k * l \<le> d + l - 1" using assms by (simp only: less_eq_div_iff_mult_less_eq)
    then show ?thesis using assms by simp
  qed
  show "?m \<le> m'" if "d \<le> m' * l"
  proof -
    from that assms have "d + l - 1 < Suc m' * l" by simp
    then have "?m < Suc m'" using assms by (simp only: div_less_iff_less_mult)
    then show ?thesis by simp
  qed
qed

lemma chunk_of_instant:
  fixes d l t :: nat
  assumes "0 < l" and "t < d"
  shows "\<exists>!k. k < (d + l - 1) div l \<and> k * l \<le> t \<and> t < min (k * l + l) d"
proof (rule ex1I [where a = "t div l"])
  have "t div l * l \<le> t" by simp
  moreover have "t < t div l * l + l" using assms(1) by (metis add.commute dividend_less_div_times)
  moreover have "t div l < (d + l - 1) div l"
  proof (rule ccontr)
    assume "\<not> t div l < (d + l - 1) div l"
    then have "(d + l - 1) div l \<le> t div l" by simp
    then have "((d + l - 1) div l) * l \<le> t div l * l" by (rule mult_le_mono1)
    with ceil_div_bounds(1) [OF assms(1), of d] have "d \<le> t div l * l" by (rule le_trans)
    with assms(2) show False using \<open>t div l * l \<le> t\<close> by simp
  qed
  ultimately show "t div l < (d + l - 1) div l \<and> t div l * l \<le> t \<and> t < min (t div l * l + l) d"
    using assms(2) by simp
next
  fix k assume k: "k < (d + l - 1) div l \<and> k * l \<le> t \<and> t < min (k * l + l) d"
  then have "k * l \<le> t" "t < Suc k * l" by simp_all
  then have "k \<le> t div l" "t div l < Suc k"
    using assms(1) by (simp_all add: less_eq_div_iff_mult_less_eq div_less_iff_less_mult)
  then show "k = t div l" by simp
qed

lemma enumerate_range:
  "enumerate 0 (py_range 0 n AUDIO_CHUNK_LENGTH_MS) =
     map (\<lambda>k. (k, k * AUDIO_CHUNK_LENGTH_MS))
       [0..<(n + AUDIO_CHUNK_LENGTH_MS - 1) div AUDIO_CHUNK_LENGTH_MS]"
proof -
  have "0 < AUDIO_CHUNK_LENGTH_MS" by (simp add: AUDIO_CHUNK_LENGTH_MS_def)
  then have "py_range 0 n AUDIO_CHUNK_LENGTH_MS =
     map (\<lambda>k. k * AUDIO_CHUNK_LENGTH_MS)
       [0..<(n + AUDIO_CHUNK_LENGTH_MS - 1) div AUDIO_CHUNK_LENGTH_MS]"
    using py_range_closed [of AUDIO_CHUNK_LENGTH_MS 0 n] by simp
  then show ?thesis
    by (simp add: enumerate_eq_zip list_eq_iff_nth_eq)
qed

section \<open>Transcription of one file\<close>

lemma transcribe_audio_missing:
  "\<not> isfile e path \<Longrightarrow> transcribe_audio e w path = (SysExit 1, w)"
  by (simp add: transcribe_audio_def)

lemma transcribe_audio_small:
  "isfile e path \<Longrightarrow> getsize e path \<le> MAX_FILE_SIZE_MB * (1024 * 1024) \<Longrightarrow>
   transcribe_audio e w path = transcribe_chunk e w path"
  by (simp add: transcribe_audio_def)

lemma transcribe_audio_undecodable:
  "isfile e path \<Longrightarrow> MAX_FILE_SIZE_MB * (1024 * 1024) < getsize e path \<Longrightarrow>
   \<forall>n. from_file e path \<noteq> Decoded n \<Longrightarrow>
   transcribe_audio e w path = (SysExit 1, emit (EvDecode path) w)"
  by (cases "from_file e path") (simp_all add: transcribe_audio_def Let_def)

lemma transcribe_audio_big:
  assumes "isfile e path" and "MAX_FILE_SIZE_MB * (1024 * 1024) < getsize e path"
    and "from_file e path = Decoded n"
    and "chunk_loop e n (snd (splitext (basename path))) (mkdtemp e)
           (enumerate 0 (py_range 0 n AUDIO_CHUNK_LENGTH_MS)) []
           (emit (EvMkTemp (mkdtemp e)) (emit (EvDecode path) w)) = (r, w3)"
  shows "transcribe_audio e w path =
           ((case r of Returned ts \<Rightarrow> Returned (join chunk_separator ts) | _ \<Rightarrow> propagate r),
            emit (EvRmTemp (mkdtemp e)) w3)"
  using assms by (simp add: transcribe_audio_def Let_def split_def split: result.splits)


lemma chunks_of_append: "chunks_of (xs @ ys) = chunks_of xs @ chunks_of ys"
  by (induction xs rule: chunks_of.induct) simp_all

lemma transcribe_audio_chunked:
  assumes "isfile e path" and "MAX_FILE_SIZE_MB * (1024 * 1024) < getsize e path"
    and "from_file e path = Decoded n"
    and "transcribe_audio e w path = (r, w')"
  shows "\<exists>r3 w3. chunk_loop e n (snd (splitext (basename path))) (mkdtemp e)
           (enumerate 0 (py_range 0 n AUDIO_CHUNK_LENGTH_MS)) []
           (emit (EvMkTemp (mkdtemp e)) (emit (EvDecode path) w)) = (r3, w3) \<and>
         r = (case r3 of Returned ts \<Rightarrow> Returned (join chunk_separator ts) | _ \<Rightarrow> propagate r3) \<and>
         w' = emit (EvRmTemp (mkdtemp e)) w3"
proof -
  obtain r3 w3 where l: "chunk_loop e n (snd (splitext (basename path))) (mkdtemp e)
           (enumerate 0 (py_range 0 n AUDIO_CHUNK_LENGTH_MS)) []
           (emit (EvMkTemp (mkdtemp e)) (emit (EvDecode path) w)) = (r3, w3)"
    by (cases "chunk_loop e n (snd (splitext (basename path))) (mkdtemp e)
           (enumerate 0 (py_range 0 n AUDIO_CHUNK_LENGTH_MS)) []
           (emit (EvMkTemp (mkdtemp e)) (emit (EvDecode path) w))") blast
  from transcribe_audio_big [OF assms(1-3) l] assms(4) l show ?thesis by simp
qed

text \<open>
  Claim C1, amended. For an audio file over the size threshold that decodes to \<open>D\<close>
  milliseconds, let \<open>m\<close> be \<open>D\<close> divided by the chunk length, rounded up (the least \<open>m\<close>
  with \<open>D \<le> m * AUDIO_CHUNK_LENGTH_MS\<close>). In every run the slices that \<open>transcribe_audio\<close>
  hands to \<open>export\<close> are, in order, the first \<open>j\<close> of the \<open>m\<close> slices with index
  \<open>k = 0, 1, ...\<close>, start \<open>k * AUDIO_CHUNK_LENGTH_MS\<close> and end
  \<open>min (start + AUDIO_CHUNK_LENGTH_MS) D\<close>. They are all \<open>m\<close> of them when \<open>transcribe_audio\<close>
  returns, and it returns when every export, every opening of an exported file and every
  transcription call succeeds. Each of the \<open>m\<close> slices is non-empty and at most 30 minutes
  long, each ends where the next starts, the last ends at \<open>D\<close>, and every millisecond
  before \<open>D\<close> lies in exactly one of them.
\<close>

theorem chunks_partition_audio:
  assumes "isfile e path" and "MAX_FILE_SIZE_MB * (1024 * 1024) < getsize e path"
    and "from_file e path = Decoded D"
    and "transcribe_audio e w path = (r, w')"
  shows "\<exists>m j. m = (D + AUDIO_CHUNK_LENGTH_MS - 1) div AUDIO_CHUNK_LENGTH_MS \<and>
     D \<le> m * AUDIO_CHUNK_LENGTH_MS \<and> (\<forall>m'. D \<le> m' * AUDIO_CHUNK_LENGTH_MS \<longrightarrow> m \<le> m') \<and>
     j \<le> m \<and> ((\<exists>text. r = Returned text) \<longrightarrow> j = m) \<and>
     ((\<forall>k<m. export_ok e (chunk_path (mkdtemp e) (snd (splitext (basename path))) k) \<and>
             readable e (chunk_path (mkdtemp e) (snd (splitext (basename path))) k) \<and>
             whisper e (calls_made w + k)
               (chunk_path (mkdtemp e) (snd (splitext (basename path))) k) \<noteq> None) \<longrightarrow>
        (\<exists>text. r = Returned text)) \<and>
     chunks_of (drop (length (trace w)) (trace w')) =
       map (\<lambda>k. (k, k * AUDIO_CHUNK_LENGTH_MS, min (k * AUDIO_CHUNK_LENGTH_MS + AUDIO_CHUNK_LENGTH_MS) D))
         [0..<j] \<and>
     (\<forall>k<m. k * AUDIO_CHUNK_LENGTH_MS < min (k * AUDIO_CHUNK_LENGTH_MS + AUDIO_CHUNK_LENGTH_MS) D \<and>
            min (k * AUDIO_CHUNK_LENGTH_MS + AUDIO_CHUNK_LENGTH_MS) D - k * AUDIO_CHUNK_LENGTH_MS
              \<le> AUDIO_CHUNK_LENGTH_MS) \<and>
     (\<forall>k. Suc k < m \<longrightarrow>
            min (k * AUDIO_CHUNK_LENGTH_MS + AUDIO_CHUNK_LENGTH_MS) D = Suc k * AUDIO_CHUNK_LENGTH_MS) \<and>
     (0 < D \<longrightarrow> 0 < m \<and>
            min ((m - 1) * AUDIO_CHUNK_LENGTH_MS + AUDIO_CHUNK_LENGTH_MS) D = D) \<and>
     (\<forall>t<D. \<exists>!k. k < m \<and> k * AUDIO_CHUNK_LENGTH_MS \<le> t \<and>
            t < min (k * AUDIO_CHUNK_LENGTH_MS + AUDIO_CHUNK_LENGTH_MS) D) \<and>
     AUDIO_CHUNK_LENGTH_MS = 30 * 60 * 1000"
proof -
  let ?L = AUDIO_CHUNK_LENGTH_MS
  let ?m = "(D + ?L - 1) div ?L"
  have L: "0 < ?L" by (simp add: AUDIO_CHUNK_LENGTH_MS_def)
  note cb = ceil_div_bounds [OF L, where d = D]
  from transcribe_audio_chunked [OF assms] obtain r3 w3 where
    loop: "chunk_loop e D (snd (splitext (basename path))) (mkdtemp e)
           (enumerate 0 (py_range 0 D ?L)) []
           (emit (EvMkTemp (mkdtemp e)) (emit (EvDecode path) w)) = (r3, w3)" and
    r: "r = (case r3 of Returned ts \<Rightarrow> Returned (join chunk_separator ts) | _ \<Rightarrow> propagate r3)" and
    w': "w' = emit (EvRmTemp (mkdtemp e)) w3"
    by blast
  from chunk_loop_inv [OF loop] obtain new j where
    tr: "trace w3 = trace (emit (EvMkTemp (mkdtemp e)) (emit (EvDecode path) w)) @ new" and
    j: "j \<le> length (enumerate 0 (py_range 0 D ?L))" and
    ch: "chunks_of new = map (chunk_bounds D) (take j (enumerate 0 (py_range 0 D ?L)))" and
    ok: "(\<exists>ts. r3 = Returned ts) \<longrightarrow> j = length (enumerate 0 (py_range 0 D ?L))"
    by blast
  have jm: "j \<le> ?m" using j by (simp add: enumerate_range)
  have full: "(\<exists>text. r = Returned text) \<longrightarrow> j = ?m"
    using ok r by (cases r3) (simp_all add: enumerate_range)
  have succ: "(\<forall>k<?m. export_ok e (chunk_path (mkdtemp e) (snd (splitext (basename path))) k) \<and>
             readable e (chunk_path (mkdtemp e) (snd (splitext (basename path))) k) \<and>
             whisper e (calls_made w + k)
               (chunk_path (mkdtemp e) (snd (splitext (basename path))) k) \<noteq> None) \<longrightarrow>
        (\<exists>text. r = Returned text)"
  proof
    let ?xs = "enumerate 0 (py_range 0 D ?L)"
    let ?w2 = "emit (EvMkTemp (mkdtemp e)) (emit (EvDecode path) w)"
    assume a: "\<forall>k<?m. export_ok e (chunk_path (mkdtemp e) (snd (splitext (basename path))) k) \<and>
             readable e (chunk_path (mkdtemp e) (snd (splitext (basename path))) k) \<and>
             whisper e (calls_made w + k)
               (chunk_path (mkdtemp e) (snd (splitext (basename path))) k) \<noteq> None"
    have cm: "calls_made ?w2 = calls_made w" by (simp add: calls_made_emit)
    have "\<forall>i<length ?xs.
        export_ok e (chunk_path (mkdtemp e) (snd (splitext (basename path))) (fst (?xs ! i))) \<and>
        readable e (chunk_path (mkdtemp e) (snd (splitext (basename path))) (fst (?xs ! i))) \<and>
        whisper e (calls_made ?w2 + i)
          (chunk_path (mkdtemp e) (snd (splitext (basename path))) (fst (?xs ! i))) \<noteq> None"
      using a by (simp add: enumerate_range cm)
    from chunk_loop_succeeds [OF this, where n = D and acc = "[]"] obtain ts w'' where
      "chunk_loop e D (snd (splitext (basename path))) (mkdtemp e) ?xs [] ?w2 = (Returned ts, w'')"
      by blast
    with loop have "r3 = Returned ts" by simp
    with r show "\<exists>text. r = Returned text" by simp
  qed
  have "trace w' = trace w @ ([EvDecode path, EvMkTemp (mkdtemp e)] @ new @ [EvRmTemp (mkdtemp e)])"
    using tr w' by simp
  then have "chunks_of (drop (length (trace w)) (trace w')) = chunks_of new"
    by (simp add: chunks_of_append)
  also have "\<dots> = map (chunk_bounds D) (map (\<lambda>k. (k, k * ?L)) [0..<j])"
    using jm by (simp add: ch enumerate_range take_map)
  also have "\<dots> = map (\<lambda>k. (k, k * ?L, min (k * ?L + ?L) D)) [0..<j]"
  proof -
    have "k * ?L < D" if "k < j" for k using that jm cb(2) [where k = k] by simp
    then show ?thesis by (auto simp: chunk_bounds_def)
  qed
  finally have chunks: "chunks_of (drop (length (trace w)) (trace w')) =
       map (\<lambda>k. (k, k * ?L, min (k * ?L + ?L) D)) [0..<j]" .
  have least: "\<forall>m'. D \<le> m' * ?L \<longrightarrow> ?m \<le> m'" using cb(3) by blast
  have each: "\<forall>k<?m. k * ?L < min (k * ?L + ?L) D \<and> min (k * ?L + ?L) D - k * ?L \<le> ?L"
    using cb(2) L by auto
  have contig: "\<forall>k. Suc k < ?m \<longrightarrow> min (k * ?L + ?L) D = Suc k * ?L"
  proof (intro allI impI)
    fix k assume "Suc k < ?m"
    then have "Suc k * ?L < D" by (rule cb(2))
    then show "min (k * ?L + ?L) D = Suc k * ?L" by simp
  qed
  have last: "0 < D \<longrightarrow> 0 < ?m \<and> min ((?m - 1) * ?L + ?L) D = D"
  proof
    assume d: "0 < D"
    have pos: "0 < ?m" using cb(1) d by (cases "?m") simp_all
    then have "(?m - 1) * ?L + ?L = ?m * ?L" by (cases "?m") simp_all
    with cb(1) pos show "0 < ?m \<and> min ((?m - 1) * ?L + ?L) D = D" by simp
  qed
  have part: "\<forall>t<D. \<exists>!k. k < ?m \<and> k * ?L \<le> t \<and> t < min (k * ?L + ?L) D"
    using chunk_of_instant [OF L] by blast
  have c: "?L = 30 * 60 * 1000" by (simp add: AUDIO_CHUNK_LENGTH_MS_def)
  show ?thesis
    by (intro exI [where x = ?m] exI [where x = j] conjI refl cb(1) least jm full succ chunks
        each contig last part c)
qed

section \<open>A run on the sample environment\<close>

lemma sample_range: "py_range 0 3600001 AUDIO_CHUNK_LENGTH_MS = [0, 1800000, 3600000]"
  by (simp add: py_range.simps AUDIO_CHUNK_LENGTH_MS_def)

lemma sample_ext: "splitext (basename (ascii ''rec.mp3'')) = (ascii ''rec'', ascii ''.mp3'')"
  by (simp add: splitext_def basename_def ascii_def Let_def)

lemma str_nat_digit: "n < 10 \<Longrightarrow> str_nat n = [48 + n]"
  by (simp add: str_nat.simps)

lemma sample_sel:
  "isfile sample_env = (\<lambda>p. True)" "getsize sample_env = (\<lambda>p. 30000000)"
  "from_file sample_env = (\<lambda>p. Decoded 3600001)" "mkdtemp sample_env = ascii ''/tmp/t''"
  "export_ok sample_env = (\<lambda>p. True)"
  "whisper sample_env = (\<lambda>k p. Some (ascii ''part'' @ str_nat k))"
  "special_terms_file sample_env = Absent"
  "chat sample_env = (\<lambda>s q. Choices [Some (ascii '' ok\<newline>'')])"
  "now sample_env = \<lparr>year = 2025, month = 1, day = 2, hour = 3, minute = 4, second = 5,
              microsecond = 6\<rparr>"
  "makedirs_ok sample_env = (\<lambda>p. True)" "open_ok sample_env = (\<lambda>p. True)"
  "readable sample_env = (\<lambda>p. True)"
  by (simp_all add: sample_env_def)

lemma sample_run:
  "transcribe_audio sample_env empty_world (ascii ''rec.mp3'') =
     (Returned (ascii ''part0'' @ chunk_separator @ ascii ''part1'' @ chunk_separator @ ascii ''part2''),
      \<lparr>trace =
         [EvDecode (ascii ''rec.mp3''), EvMkTemp (ascii ''/tmp/t''),
          EvExport 0 0 1800000 (ascii ''/tmp/t/chunk_0.mp3'') (ascii ''mp3''),
          EvTranscribe (ascii ''/tmp/t/chunk_0.mp3'') (Some (ascii ''part0'')),
          EvExport 1 1800000 3600000 (ascii ''/tmp/t/chunk_1.mp3'') (ascii ''mp3''),
          EvTranscribe (ascii ''/tmp/t/chunk_1.mp3'') (Some (ascii ''part1'')),
          EvExport 2 3600000 3600001 (ascii ''/tmp/t/chunk_2.mp3'') (ascii ''mp3''),
          EvTranscribe (ascii ''/tmp/t/chunk_2.mp3'') (Some (ascii ''part2'')),
          EvRmTemp (ascii ''/tmp/t'')],
       files = Map.empty\<rparr>)"
proof -
  let ?p = "ascii ''rec.mp3''"
  have loop: "chunk_loop sample_env 3600001 (ascii ''.mp3'') (ascii ''/tmp/t'')
          [(0, 0), (1, 1800000), (2, 3600000)] []
          \<lparr>trace = [EvDecode (ascii ''rec.mp3''), EvMkTemp (ascii ''/tmp/t'')], files = Map.empty\<rparr> =
        (Returned [ascii ''part0'', ascii ''part1'', ascii ''part2''],
         \<lparr>trace =
         [EvDecode (ascii ''rec.mp3''), EvMkTemp (ascii ''/tmp/t''),
          EvExport 0 0 1800000 (ascii ''/tmp/t/chunk_0.mp3'') (ascii ''mp3''),
          EvTranscribe (ascii ''/tmp/t/chunk_0.mp3'') (Some (ascii ''part0'')),
          EvExport 1 1800000 3600000 (ascii ''/tmp/t/chunk_1.mp3'') (ascii ''mp3''),
          EvTranscribe (ascii ''/tmp/t/chunk_1.mp3'') (Some (ascii ''part1'')),
          EvExport 2 3600000 3600001 (ascii ''/tmp/t/chunk_2.mp3'') (ascii ''mp3''),
          EvTranscribe (ascii ''/tmp/t/chunk_2.mp3'') (Some (ascii ''part2''))],
          files = Map.empty\<rparr>)"
    by (simp add: sample_sel transcribe_chunk_def calls_made_def
      emit_def slice_ms_def path_join_def startswith_def str_nat_digit Let_def
      AUDIO_CHUNK_LENGTH_MS_def ascii_def)
  have h1: "isfile sample_env ?p" by (simp add: sample_sel)
  have h2: "MAX_FILE_SIZE_MB * (1024 * 1024) < getsize sample_env ?p"
    by (simp add: sample_sel MAX_FILE_SIZE_MB_def)
  have h3: "from_file sample_env ?p = Decoded 3600001" by (simp add: sample_sel)
  have loop': "chunk_loop sample_env 3600001 (snd (splitext (basename ?p))) (mkdtemp sample_env)
           (enumerate 0 (py_range 0 3600001 AUDIO_CHUNK_LENGTH_MS)) []
           (emit (EvMkTemp (mkdtemp sample_env)) (emit (EvDecode ?p) empty_world)) =
        (Returned [ascii ''part0'', ascii ''part1'', ascii ''part2''],
         \<lparr>trace =
         [EvDecode (ascii ''rec.mp3''), EvMkTemp (ascii ''/tmp/t''),
          EvExport 0 0 1800000 (ascii ''/tmp/t/chunk_0.mp3'') (ascii ''mp3''),
          EvTranscribe (ascii ''/tmp/t/chunk_0.mp3'') (Some (ascii ''part0'')),
          EvExport 1 1800000 3600000 (ascii ''/tmp/t/chunk_1.mp3'') (ascii ''mp3''),
          EvTranscribe (ascii ''/tmp/t/chunk_1.mp3'') (Some (ascii ''part1'')),
          EvExport 2 3600000 3600001 (ascii ''/tmp/t/chunk_2.mp3'') (ascii ''mp3''),
          EvTranscribe (ascii ''/tmp/t/chunk_2.mp3'') (Some (ascii ''part2''))],
          files = Map.empty\<rparr>)"
  proof -
    have e1: "enumerate 0 (py_range 0 3600001 AUDIO_CHUNK_LENGTH_MS)
              = [(0, 0), (1, 1800000), (2, 3600000)]"
      by (simp add: sample_range)
    have e2: "emit (EvMkTemp (ascii ''/tmp/t'')) (emit (EvDecode ?p) empty_world) =
              \<lparr>trace = [EvDecode (ascii ''rec.mp3''), EvMkTemp (ascii ''/tmp/t'')], files = Map.empty\<rparr>"
      by (simp add: sample_sel emit_def empty_world_def)
    have e3: "snd (splitext (basename ?p)) = ascii ''.mp3''" by (simp add: sample_ext)
    show ?thesis by (simp only: e1 e2 e3 sample_sel(4) loop)
  qed
  show ?thesis
    unfolding transcribe_audio_big [OF h1 h2 h3 loop']
    by (simp add: emit_def sample_sel)
qed


lemma failing_run:
  "transcribe_audio failing_env empty_world (ascii ''rec.mp3'') =
     (Raised TranscriptionError,
      \<lparr>trace =
         [EvDecode (ascii ''rec.mp3''), EvMkTemp (ascii ''/tmp/t''),
          EvExport 0 0 1800000 (ascii ''/tmp/t/chunk_0.mp3'') (ascii ''mp3''),
          EvTranscribe (ascii ''/tmp/t/chunk_0.mp3'') (Some (ascii ''part0'')),
          EvExport 1 1800000 3600000 (ascii ''/tmp/t/chunk_1.mp3'') (ascii ''mp3''),
          EvTranscribe (ascii ''/tmp/t/chunk_1.mp3'') None,
          EvRmTemp (ascii ''/tmp/t'')],
       files = Map.empty\<rparr>)"
proof -
  let ?p = "ascii ''rec.mp3''"
  have sel: "isfile failing_env = (\<lambda>p. True)" "getsize failing_env = (\<lambda>p. 30000000)"
    "from_file failing_env = (\<lambda>p. Decoded 3600001)" "mkdtemp failing_env = ascii ''/tmp/t''"
    "export_ok failing_env = (\<lambda>p. True)" "readable failing_env = (\<lambda>p. True)"
    "whisper failing_env = (\<lambda>k p. if k = 1 then None else Some (ascii ''part'' @ str_nat k))"
    by (simp_all add: failing_env_def sample_sel)
  have loop: "chunk_loop failing_env 3600001 (ascii ''.mp3'') (ascii ''/tmp/t'')
          [(0, 0), (1, 1800000), (2, 3600000)] []
          \<lparr>trace = [EvDecode (ascii ''rec.mp3''), EvMkTemp (ascii ''/tmp/t'')], files = Map.empty\<rparr> =
        (Raised TranscriptionError,
         \<lparr>trace =
         [EvDecode (ascii ''rec.mp3''), EvMkTemp (ascii ''/tmp/t''),
          EvExport 0 0 1800000 (ascii ''/tmp/t/chunk_0.mp3'') (ascii ''mp3''),
          EvTranscribe (ascii ''/tmp/t/chunk_0.mp3'') (Some (ascii ''part0'')),
          EvExport 1 1800000 3600000 (ascii ''/tmp/t/chunk_1.mp3'') (ascii ''mp3''),
          EvTranscribe (ascii ''/tmp/t/chunk_1.mp3'') None],
          files = Map.empty\<rparr>)"
    by (simp add: sel transcribe_chunk_def calls_made_def
      emit_def slice_ms_def path_join_def startswith_def str_nat_digit Let_def
      AUDIO_CHUNK_LENGTH_MS_def ascii_def)
  have h1: "isfile failing_env ?p" by (simp add: sel)
  have h2: "MAX_FILE_SIZE_MB * (1024 * 1024) < getsize failing_env ?p"
    by (simp add: sel MAX_FILE_SIZE_MB_def)
  have h3: "from_file failing_env ?p = Decoded 3600001" by (simp add: sel)
  have loop': "chunk_loop failing_env 3600001 (snd (splitext (basename ?p))) (mkdtemp failing_env)
           (enumerate 0 (py_range 0 3600001 AUDIO_CHUNK_LENGTH_MS)) []
           (emit (EvMkTemp (mkdtemp failing_env)) (emit (EvDecode ?p) empty_world)) =
        (Raised TranscriptionError,
         \<lparr>trace =
         [EvDecode (ascii ''rec.mp3''), EvMkTemp (ascii ''/tmp/t''),
          EvExport 0 0 1800000 (ascii ''/tmp/t/chunk_0.mp3'') (ascii ''mp3''),
          EvTranscribe (ascii ''/tmp/t/chunk_0.mp3'') (Some (ascii ''part0'')),
          EvExport 1 1800000 3600000 (ascii ''/tmp/t/chunk_1.mp3'') (ascii ''mp3''),
          EvTranscribe (ascii ''/tmp/t/chunk_1.mp3'') None],
          files = Map.empty\<rparr>)"
  proof -
    have e1: "enumerate 0 (py_range 0 3600001 AUDIO_CHUNK_LENGTH_MS)
              = [(0, 0), (1, 1800000), (2, 3600000)]"
      by (simp add: sample_range)
    have e2: "emit (EvMkTemp (ascii ''/tmp/t'')) (emit (EvDecode ?p) empty_world) =
              \<lparr>trace = [EvDecode (ascii ''rec.mp3''), EvMkTemp (ascii ''/tmp/t'')], files = Map.empty\<rparr>"
      by (simp add: emit_def empty_world_def)
    have e3: "snd (splitext (basename ?p)) = ascii ''.mp3''" by (simp add: sample_ext)
    show ?thesis by (simp only: e1 e2 e3 sel(4) loop)
  qed
  show ?thesis
    unfolding transcribe_audio_big [OF h1 h2 h3 loop']
    by (simp add: emit_def sel)
qed

lemma unreadable_run:
  "transcribe_audio unreadable_env empty_world (ascii ''rec.mp3'') =
     (Raised OSError,
      \<lparr>trace =
         [EvDecode (ascii ''rec.mp3''), EvMkTemp (ascii ''/tmp/t''),
          EvExport 0 0 1800000 (ascii ''/tmp/t/chunk_0.mp3'') (ascii ''mp3''),
          EvRmTemp (ascii ''/tmp/t'')],
       files = Map.empty\<rparr>)"
proof -
  let ?p = "ascii ''rec.mp3''"
  have sel: "isfile unreadable_env = (\<lambda>p. True)" "getsize unreadable_env = (\<lambda>p. 30000000)"
    "from_file unreadable_env = (\<lambda>p. Decoded 3600001)" "mkdtemp unreadable_env = ascii ''/tmp/t''"
    "export_ok unreadable_env = (\<lambda>p. True)" "readable unreadable_env = (\<lambda>p. False)"
    by (simp_all add: unreadable_env_def sample_sel)
  have loop: "chunk_loop unreadable_env 3600001 (ascii ''.mp3'') (ascii ''/tmp/t'')
          [(0, 0), (1, 1800000), (2, 3600000)] []
          \<lparr>trace = [EvDecode (ascii ''rec.mp3''), EvMkTemp (ascii ''/tmp/t'')], files = Map.empty\<rparr> =
        (Raised OSError,
         \<lparr>trace =
         [EvDecode (ascii ''rec.mp3''), EvMkTemp (ascii ''/tmp/t''),
          EvExport 0 0 1800000 (ascii ''/tmp/t/chunk_0.mp3'') (ascii ''mp3'')],
          files = Map.empty\<rparr>)"
    by (simp add: sel transcribe_chunk_def calls_made_def
      emit_def slice_ms_def path_join_def startswith_def str_nat_digit Let_def
      AUDIO_CHUNK_LENGTH_MS_def ascii_def)
  have h1: "isfile unreadable_env ?p" by (simp add: sel)
  have h2: "MAX_FILE_SIZE_MB * (1024 * 1024) < getsize unreadable_env ?p"
    by (simp add: sel MAX_FILE_SIZE_MB_def)
  have h3: "from_file unreadable_env ?p = Decoded 3600001" by (simp add: sel)
  have loop': "chunk_loop unreadable_env 3600001 (snd (splitext (basename ?p)))
           (mkdtemp unreadable_env)
           (enumerate 0 (py_range 0 3600001 AUDIO_CHUNK_LENGTH_MS)) []
           (emit (EvMkTemp (mkdtemp unreadable_env)) (emit (EvDecode ?p) empty_world)) =
        (Raised OSError,
         \<lparr>trace =
         [EvDecode (ascii ''rec.mp3''), EvMkTemp (ascii ''/tmp/t''),
          EvExport 0 0 1800000 (ascii ''/tmp/t/chunk_0.mp3'') (ascii ''mp3'')],
          files = Map.empty\<rparr>)"
  proof -
    have e1: "enumerate 0 (py_range 0 3600001 AUDIO_CHUNK_LENGTH_MS)
              = [(0, 0), (1, 1800000), (2, 3600000)]"
      by (simp add: sample_range)
    have e2: "emit (EvMkTemp (ascii ''/tmp/t'')) (emit (EvDecode ?p) empty_world) =
              \<lparr>trace = [EvDecode (ascii ''rec.mp3''), EvMkTemp (ascii ''/tmp/t'')], files = Map.empty\<rparr>"
      by (simp add: emit_def empty_world_def)
    have e3: "snd (splitext (basename ?p)) = ascii ''.mp3''" by (simp add: sample_ext)
    show ?thesis by (simp only: e1 e2 e3 sel(4) loop)
  qed
  show ?thesis
    unfolding transcribe_audio_big [OF h1 h2 h3 loop']
    by (simp add: emit_def sel)
qed

text \<open>
  Claim C1 as stated, on the run in which the second call fails: the file is over the
  threshold and decodes to 3 600 001 milliseconds, which is three chunk lengths rounded
  up, and two chunks are exported.
\<close>

theorem two_of_three_chunks_exported:
  "isfile failing_env (ascii ''rec.mp3'') \<and>
   MAX_FILE_SIZE_MB * (1024 * 1024) < getsize failing_env (ascii ''rec.mp3'') \<and>
   from_file failing_env (ascii ''rec.mp3'') = Decoded 3600001 \<and>
   (3600001 + AUDIO_CHUNK_LENGTH_MS - 1) div AUDIO_CHUNK_LENGTH_MS = 3 \<and>
   chunks_of (trace (snd (transcribe_audio failing_env empty_world (ascii ''rec.mp3'')))) =
     [(0, 0, 1800000), (1, 1800000, 3600000)]"
  by (simp add: failing_run MAX_FILE_SIZE_MB_def AUDIO_CHUNK_LENGTH_MS_def)
    (simp add: failing_env_def sample_sel)

text \<open>The sample file of one hour and one millisecond is cut into three slices.\<close>

theorem chunks_partition_audio_witness:
  "chunks_of (trace (snd (transcribe_audio sample_env empty_world (ascii ''rec.mp3'')))) =
     [(0, 0, 1800000), (1, 1800000, 3600000), (2, 3600000, 3600001)]"
proof -
  let ?p = "ascii ''rec.mp3''"
  let ?run = "transcribe_audio sample_env empty_world ?p"
  have h1: "isfile sample_env ?p" by (simp add: sample_sel)
  have h2: "MAX_FILE_SIZE_MB * (1024 * 1024) < getsize sample_env ?p"
    by (simp add: sample_sel MAX_FILE_SIZE_MB_def)
  have h3: "from_file sample_env ?p = Decoded 3600001" by (simp add: sample_sel)
  have h4: "?run = (fst ?run, snd ?run)" by simp
  have ret: "\<exists>text. fst ?run = Returned text" by (simp add: sample_run)
  have m: "(3600001 + AUDIO_CHUNK_LENGTH_MS - 1) div AUDIO_CHUNK_LENGTH_MS = 3"
    by (simp add: AUDIO_CHUNK_LENGTH_MS_def)
  from chunks_partition_audio [OF h1 h2 h3 h4] ret obtain j where "j = 3" and
    "chunks_of (drop (length (trace empty_world)) (trace (snd ?run))) =
       map (\<lambda>k. (k, k * AUDIO_CHUNK_LENGTH_MS,
                  min (k * AUDIO_CHUNK_LENGTH_MS + AUDIO_CHUNK_LENGTH_MS) 3600001)) [0..<j]"
    unfolding m by blast
  then show ?thesis
    by (simp add: empty_world_def AUDIO_CHUNK_LENGTH_MS_def upt_conv_Cons)
qed

section \<open>Missing and small files\<close>

lemma main_missing: "\<not> isfile e path \<Longrightarrow> main e w path prompt_type = (SysExit 1, w)"
  by (simp add: main_def transcribe_audio_missing)

text \<open>
  Claim C8. When the audio path is not an existing file, \<open>transcribe_audio\<close> ends the run
  with \<open>sys.exit(1)\<close> and the world is as it was: nothing was decoded, no temporary
  directory was made, no chunk was exported and no service was called. So does \<open>main\<close>.
\<close>

theorem missing_file_stops_first:
  assumes "\<not> isfile e path"
  shows "transcribe_audio e w path = (SysExit 1, w) \<and>
         main e w path prompt_type = (SysExit 1, w)"
  using assms by (simp add: transcribe_audio_missing main_missing)

text \<open>The sample environment without the audio file.\<close>

theorem missing_file_stops_first_witness:
  "transcribe_audio (sample_env\<lparr>isfile := \<lambda>p. False\<rparr>) empty_world (ascii ''rec.mp3'')
     = (SysExit 1, empty_world) \<and>
   main (sample_env\<lparr>isfile := \<lambda>p. False\<rparr>) empty_world (ascii ''rec.mp3'') (ascii ''general'')
     = (SysExit 1, empty_world)"
proof -
  have "\<not> isfile (sample_env\<lparr>isfile := \<lambda>p. False\<rparr>) (ascii ''rec.mp3'')" by simp
  then show ?thesis by (rule missing_file_stops_first)
qed

text \<open>
  Claim C2, amended. For an existing file of at most 25 MB (26 214 400 bytes): when the
  file can be opened for reading, all that \<open>transcribe_audio\<close> does is one transcription
  call on the file itself, whose answer is the result, and the trace grows by that one
  event; when it cannot be opened, the exception of \<open>open\<close> ends the run and the world is
  as it was, with no call made. An event of chunking (decode, temporary directory,
  export) occurs only when the file exists and is larger than 25 MB.
\<close>

theorem small_file_single_call:
  "(isfile e path \<and> getsize e path \<le> MAX_FILE_SIZE_MB * (1024 * 1024) \<and> readable e path \<longrightarrow>
      transcribe_audio e w path =
        ((case whisper e (calls_made w) path of
            None \<Rightarrow> Raised TranscriptionError | Some text \<Rightarrow> Returned text),
         w\<lparr>trace := trace w @ [EvTranscribe path (whisper e (calls_made w) path)]\<rparr>)) \<and>
   (isfile e path \<and> getsize e path \<le> MAX_FILE_SIZE_MB * (1024 * 1024) \<and> \<not> readable e path \<longrightarrow>
      transcribe_audio e w path = (Raised OSError, w)) \<and>
   ((\<exists>ev \<in> set (drop (length (trace w)) (trace (snd (transcribe_audio e w path)))).
        is_chunking ev) \<longrightarrow>
      isfile e path \<and> MAX_FILE_SIZE_MB * (1024 * 1024) < getsize e path) \<and>
   MAX_FILE_SIZE_MB * (1024 * 1024) = 26214400"
proof -
  have a: "isfile e path \<and> getsize e path \<le> MAX_FILE_SIZE_MB * (1024 * 1024) \<and> readable e path \<longrightarrow>
      transcribe_audio e w path =
        ((case whisper e (calls_made w) path of
            None \<Rightarrow> Raised TranscriptionError | Some text \<Rightarrow> Returned text),
         w\<lparr>trace := trace w @ [EvTranscribe path (whisper e (calls_made w) path)]\<rparr>)"
    by (simp add: transcribe_audio_small transcribe_chunk_eq emit_def)
  have u: "isfile e path \<and> getsize e path \<le> MAX_FILE_SIZE_MB * (1024 * 1024) \<and> \<not> readable e path \<longrightarrow>
      transcribe_audio e w path = (Raised OSError, w)"
    by (simp add: transcribe_audio_small transcribe_chunk_unreadable)
  have b: "(\<exists>ev \<in> set (drop (length (trace w)) (trace (snd (transcribe_audio e w path)))).
        is_chunking ev) \<longrightarrow>
      isfile e path \<and> MAX_FILE_SIZE_MB * (1024 * 1024) < getsize e path"
  proof (cases "isfile e path")
    case False
    then show ?thesis by (simp add: transcribe_audio_missing)
  next
    case True
    show ?thesis
    proof (cases "getsize e path \<le> MAX_FILE_SIZE_MB * (1024 * 1024)")
      case small: True
      show ?thesis
      proof (cases "readable e path")
        case True
        with \<open>isfile e path\<close> small show ?thesis
          by (simp add: transcribe_audio_small transcribe_chunk_eq)
      next
        case False
        with \<open>isfile e path\<close> small show ?thesis
          by (simp add: transcribe_audio_small transcribe_chunk_unreadable)
      qed
    next
      case False
      with True show ?thesis by simp
    qed
  qed
  have c: "MAX_FILE_SIZE_MB * (1024 * 1024) = 26214400" by (simp add: MAX_FILE_SIZE_MB_def)
  show ?thesis by (intro conjI a u b c)
qed

text \<open>A readable file of exactly 25 MB.\<close>

theorem small_file_single_call_witness:
  "transcribe_audio (sample_env\<lparr>getsize := \<lambda>p. 26214400\<rparr>) empty_world (ascii ''rec.mp3'') =
     (Returned (ascii ''part0''),
      \<lparr>trace = [EvTranscribe (ascii ''rec.mp3'') (Some (ascii ''part0''))], files = Map.empty\<rparr>)"
proof -
  let ?e = "sample_env\<lparr>getsize := \<lambda>p. 26214400\<rparr>"
  have h: "isfile ?e (ascii ''rec.mp3'') \<and>
           getsize ?e (ascii ''rec.mp3'') \<le> MAX_FILE_SIZE_MB * (1024 * 1024) \<and>
           readable ?e (ascii ''rec.mp3'')"
    by (simp add: sample_sel MAX_FILE_SIZE_MB_def)
  have c: "calls_made empty_world = 0" by (simp add: calls_made_def empty_world_def)
  have w: "whisper ?e 0 (ascii ''rec.mp3'') = Some (ascii ''part0'')"
    by (simp add: sample_sel str_nat_digit ascii_def)
  from small_file_single_call [of ?e "ascii ''rec.mp3''" empty_world, THEN conjunct1, rule_format, OF h]
  show ?thesis unfolding c w by (simp add: empty_world_def)
qed

text \<open>
  Claim C2 as stated, on an existing file of 25 MB that cannot be opened for reading:
  the run ends with the exception of \<open>open\<close> and no transcription call is made.
\<close>

theorem unreadable_small_file_no_call:
  "isfile (unreadable_env\<lparr>getsize := \<lambda>p. 26214400\<rparr>) (ascii ''rec.mp3'') \<and>
   getsize (unreadable_env\<lparr>getsize := \<lambda>p. 26214400\<rparr>) (ascii ''rec.mp3'')
     \<le> MAX_FILE_SIZE_MB * (1024 * 1024) \<and>
   transcribe_audio (unreadable_env\<lparr>getsize := \<lambda>p. 26214400\<rparr>) empty_world (ascii ''rec.mp3'')
     = (Raised OSError, empty_world) \<and>
   filter is_transcribe
     (trace (snd (transcribe_audio (unreadable_env\<lparr>getsize := \<lambda>p. 26214400\<rparr>) empty_world
                    (ascii ''rec.mp3'')))) = []"
  by (simp add: transcribe_audio_def transcribe_chunk_def unreadable_env_def sample_sel
      MAX_FILE_SIZE_MB_def empty_world_def)

section \<open>The transcript of a chunked file\<close>

lemma map_zip_nth:
  "length ys \<le> length xs \<Longrightarrow>
   map f (zip xs ys) = map (\<lambda>k. f (xs ! k, ys ! k)) [0..<length ys]"
  by (rule nth_equalityI) simp_all

text \<open>
  Claim C3, amended. In every run of \<open>transcribe_audio\<close> on a chunked file the trace is:
  the decode, the temporary directory, then for \<open>k = 0, 1, ...\<close> in this order the export
  of chunk \<open>k\<close> followed by the transcription call on the file of chunk \<open>k\<close> with its
  answer, so that the call for chunk \<open>k + 1\<close> comes after the answer for chunk \<open>k\<close>; then,
  when the run does not return, the export of the next chunk alone (that export or the
  opening of the exported file raised) or that export and a call that raised; and the
  removal of the temporary directory. When the run returns, every chunk had its call and
  the result is the answers joined in index order with the separator of the source,
  which is \<open>\n\n--- (\<close>, the six characters U+6B21 U+306E U+30C1 U+30E3 U+30F3 U+30AF and
  \<open>) ---\n\n\<close>. When it returns on a file that is not chunked, the result is the answer
  of the one call, with no separator added.
\<close>

theorem chunked_transcript_in_order:
  "(isfile e path \<and> MAX_FILE_SIZE_MB * (1024 * 1024) < getsize e path \<and>
    from_file e path = Decoded D \<and> transcribe_audio e w path = (r, w') \<longrightarrow>
      (\<exists>ts tail.
         length ts \<le> (D + AUDIO_CHUNK_LENGTH_MS - 1) div AUDIO_CHUNK_LENGTH_MS \<and>
         (\<forall>k<length ts.
            whisper e (calls_made w + k)
              (chunk_path (mkdtemp e) (snd (splitext (basename path))) k) = Some (ts ! k)) \<and>
         trace w' = trace w @ [EvDecode path, EvMkTemp (mkdtemp e)]
           @ concat (map (\<lambda>k. iteration_events D (snd (splitext (basename path))) (mkdtemp e)
                                (k, k * AUDIO_CHUNK_LENGTH_MS) (Some (ts ! k)))
                      [0..<length ts])
           @ tail @ [EvRmTemp (mkdtemp e)] \<and>
         ((\<exists>text. r = Returned text) \<longrightarrow>
            length ts = (D + AUDIO_CHUNK_LENGTH_MS - 1) div AUDIO_CHUNK_LENGTH_MS \<and> tail = [] \<and>
            r = Returned (join chunk_separator ts)) \<and>
         ((\<forall>text. r \<noteq> Returned text) \<longrightarrow>
            length ts < (D + AUDIO_CHUNK_LENGTH_MS - 1) div AUDIO_CHUNK_LENGTH_MS \<and>
            (tail = [export_event D (snd (splitext (basename path))) (mkdtemp e)
                       (length ts, length ts * AUDIO_CHUNK_LENGTH_MS)] \<or>
             tail = iteration_events D (snd (splitext (basename path))) (mkdtemp e)
                      (length ts, length ts * AUDIO_CHUNK_LENGTH_MS) None)))) \<and>
   (isfile e path \<and> getsize e path \<le> MAX_FILE_SIZE_MB * (1024 * 1024) \<and>
    transcribe_audio e w path = (Returned text, w') \<longrightarrow>
      whisper e (calls_made w) path = Some text \<and>
      trace w' = trace w @ [EvTranscribe path (Some text)]) \<and>
   join chunk_separator [] = [] \<and> join chunk_separator [x] = x \<and>
   join chunk_separator (x # y # ys) = x @ chunk_separator @ join chunk_separator (y # ys) \<and>
   chunk_separator =
     ascii ''\<newline>\<newline>--- ('' @ [0x6B21, 0x306E, 0x30C1, 0x30E3, 0x30F3, 0x30AF]
     @ ascii '') ---\<newline>\<newline>''"
proof -
  let ?L = AUDIO_CHUNK_LENGTH_MS
  let ?m = "(D + ?L - 1) div ?L"
  let ?ext = "snd (splitext (basename path))"
  let ?tmp = "mkdtemp e"
  have a: "isfile e path \<and> MAX_FILE_SIZE_MB * (1024 * 1024) < getsize e path \<and>
    from_file e path = Decoded D \<and> transcribe_audio e w path = (r, w') \<longrightarrow>
      (\<exists>ts tail. length ts \<le> ?m \<and>
         (\<forall>k<length ts. whisper e (calls_made w + k) (chunk_path ?tmp ?ext k) = Some (ts ! k)) \<and>
         trace w' = trace w @ [EvDecode path, EvMkTemp ?tmp]
           @ concat (map (\<lambda>k. iteration_events D ?ext ?tmp (k, k * ?L) (Some (ts ! k)))
                      [0..<length ts])
           @ tail @ [EvRmTemp ?tmp] \<and>
         ((\<exists>text. r = Returned text) \<longrightarrow>
            length ts = ?m \<and> tail = [] \<and> r = Returned (join chunk_separator ts)) \<and>
         ((\<forall>text. r \<noteq> Returned text) \<longrightarrow>
            length ts < ?m \<and>
            (tail = [export_event D ?ext ?tmp (length ts, length ts * ?L)] \<or>
             tail = iteration_events D ?ext ?tmp (length ts, length ts * ?L) None)))"
  proof (intro impI, elim conjE)
    assume h: "isfile e path" "MAX_FILE_SIZE_MB * (1024 * 1024) < getsize e path"
      "from_file e path = Decoded D" "transcribe_audio e w path = (r, w')"
    let ?xs = "enumerate 0 (py_range 0 D ?L)"
    let ?w2 = "emit (EvMkTemp ?tmp) (emit (EvDecode path) w)"
    from transcribe_audio_chunked [OF h] obtain r3 w3 where
      loop: "chunk_loop e D ?ext ?tmp ?xs [] ?w2 = (r3, w3)" and
      r: "r = (case r3 of Returned ts \<Rightarrow> Returned (join chunk_separator ts)
                           | _ \<Rightarrow> propagate r3)" and
      w': "w' = emit (EvRmTemp ?tmp) w3"
      by blast
    from chunk_loop_shape [OF loop] obtain ts tail where
      len: "length ts \<le> length ?xs" and
      tr: "trace w3 = trace ?w2
         @ concat (map (\<lambda>(x, a). iteration_events D ?ext ?tmp x (Some a)) (zip ?xs ts)) @ tail" and
      wh: "\<forall>i<length ts.
          whisper e (calls_made ?w2 + i) (chunk_path ?tmp ?ext (fst (?xs ! i))) = Some (ts ! i)" and
      ok: "(\<exists>ts'. r3 = Returned ts') \<longrightarrow> length ts = length ?xs \<and> tail = [] \<and> r3 = Returned ([] @ ts)" and
      bad: "(\<forall>ts'. r3 \<noteq> Returned ts') \<longrightarrow>
              length ts < length ?xs \<and>
              (tail = [export_event D ?ext ?tmp (?xs ! length ts)] \<or>
               tail = iteration_events D ?ext ?tmp (?xs ! length ts) None)"
      by blast
    have lm: "length ts \<le> ?m" using len by (simp add: enumerate_range)
    have cm: "calls_made ?w2 = calls_made w" by (simp add: calls_made_emit)
    have nth: "?xs ! k = (k, k * ?L)" if "k < ?m" for k
      using that by (simp add: enumerate_range)
    have calls: "\<forall>k<length ts. whisper e (calls_made w + k) (chunk_path ?tmp ?ext k) = Some (ts ! k)"
    proof (intro allI impI)
      fix k assume k: "k < length ts"
      with lm have km: "k < ?m" by simp
      from wh k have "whisper e (calls_made ?w2 + k) (chunk_path ?tmp ?ext (fst (?xs ! k)))
          = Some (ts ! k)"
        by blast
      then show "whisper e (calls_made w + k) (chunk_path ?tmp ?ext k) = Some (ts ! k)"
        unfolding cm nth [OF km] by simp
    qed
    have "map (\<lambda>(x, a). iteration_events D ?ext ?tmp x (Some a)) (zip ?xs ts) =
          map (\<lambda>k. (\<lambda>(x, a). iteration_events D ?ext ?tmp x (Some a)) (?xs ! k, ts ! k))
            [0..<length ts]"
      by (rule map_zip_nth) (rule len)
    also have "\<dots> = map (\<lambda>k. iteration_events D ?ext ?tmp (k, k * ?L) (Some (ts ! k))) [0..<length ts]"
      using nth lm by simp
    finally have "trace w3 = trace ?w2
         @ concat (map (\<lambda>k. iteration_events D ?ext ?tmp (k, k * ?L) (Some (ts ! k))) [0..<length ts])
         @ tail"
      using tr by simp
    then have trace: "trace w' = trace w @ [EvDecode path, EvMkTemp ?tmp]
           @ concat (map (\<lambda>k. iteration_events D ?ext ?tmp (k, k * ?L) (Some (ts ! k)))
                      [0..<length ts])
           @ tail @ [EvRmTemp ?tmp]"
      by (simp add: w')
    have good: "(\<exists>text. r = Returned text) \<longrightarrow>
            length ts = ?m \<and> tail = [] \<and> r = Returned (join chunk_separator ts)"
    proof
      assume "\<exists>text. r = Returned text"
      with r obtain ts' where r3: "r3 = Returned ts'" by (cases r3) simp_all
      with ok have "length ts = length ?xs" "tail = []" "r3 = Returned ts" by simp_all
      with r show "length ts = ?m \<and> tail = [] \<and> r = Returned (join chunk_separator ts)"
        by (simp add: enumerate_range)
    qed
    have fail: "(\<forall>text. r \<noteq> Returned text) \<longrightarrow>
            length ts < ?m \<and>
            (tail = [export_event D ?ext ?tmp (length ts, length ts * ?L)] \<or>
             tail = iteration_events D ?ext ?tmp (length ts, length ts * ?L) None)"
    proof
      assume nr: "\<forall>text. r \<noteq> Returned text"
      have "\<forall>ts'. r3 \<noteq> Returned ts'"
      proof (intro allI notI)
        fix ts' assume "r3 = Returned ts'"
        with r have "r = Returned (join chunk_separator ts')" by simp
        with nr show False by simp
      qed
      with bad have l: "length ts < length ?xs" and
        tl: "tail = [export_event D ?ext ?tmp (?xs ! length ts)] \<or>
             tail = iteration_events D ?ext ?tmp (?xs ! length ts) None"
        by simp_all
      from l have l': "length ts < ?m" by (simp add: enumerate_range)
      from tl show "length ts < ?m \<and>
            (tail = [export_event D ?ext ?tmp (length ts, length ts * ?L)] \<or>
             tail = iteration_events D ?ext ?tmp (length ts, length ts * ?L) None)"
        unfolding nth [OF l'] using l' by simp
    qed
    show "\<exists>ts tail. length ts \<le> ?m \<and>
         (\<forall>k<length ts. whisper e (calls_made w + k) (chunk_path ?tmp ?ext k) = Some (ts ! k)) \<and>
         trace w' = trace w @ [EvDecode path, EvMkTemp ?tmp]
           @ concat (map (\<lambda>k. iteration_events D ?ext ?tmp (k, k * ?L) (Some (ts ! k)))
                      [0..<length ts])
           @ tail @ [EvRmTemp ?tmp] \<and>
         ((\<exists>text. r = Returned text) \<longrightarrow>
            length ts = ?m \<and> tail = [] \<and> r = Returned (join chunk_separator ts)) \<and>
         ((\<forall>text. r \<noteq> Returned text) \<longrightarrow>
            length ts < ?m \<and>
            (tail = [export_event D ?ext ?tmp (length ts, length ts * ?L)] \<or>
             tail = iteration_events D ?ext ?tmp (length ts, length ts * ?L) None))"
      by (intro exI [where x = ts] exI [where x = tail] conjI lm calls trace good fail)
  qed
  have b: "isfile e path \<and> getsize e path \<le> MAX_FILE_SIZE_MB * (1024 * 1024) \<and>
    transcribe_audio e w path = (Returned text, w') \<longrightarrow>
      whisper e (calls_made w) path = Some text \<and>
      trace w' = trace w @ [EvTranscribe path (Some text)]"
  proof (cases "readable e path")
    case True
    then show ?thesis
      by (auto simp: transcribe_audio_small transcribe_chunk_eq split: option.splits)
  next
    case False
    then show ?thesis
      by (auto simp: transcribe_audio_small transcribe_chunk_unreadable)
  qed
  have c: "chunk_separator =
     ascii ''\<newline>\<newline>--- ('' @ [0x6B21, 0x306E, 0x30C1, 0x30E3, 0x30F3, 0x30AF]
     @ ascii '') ---\<newline>\<newline>''"
    by (simp add: chunk_separator_def)
  show ?thesis by (intro conjI a b c join.simps)
qed

text \<open>
  Claim C3 as stated. On the sample file of three chunks the result is not the three
  answers joined with \<open>\n\n--- (next chunk) ---\n\n\<close>. On the same file when the exported
  files cannot be opened, the first chunk is exported and no transcription call is made.
\<close>

theorem english_separator_is_not_used:
  "fst (transcribe_audio sample_env empty_world (ascii ''rec.mp3'')) \<noteq>
     Returned (join (ascii ''\<newline>\<newline>--- (next chunk) ---\<newline>\<newline>'')
                 [ascii ''part0'', ascii ''part1'', ascii ''part2'']) \<and>
   chunks_of (trace (snd (transcribe_audio unreadable_env empty_world (ascii ''rec.mp3''))))
     = [(0, 0, 1800000)] \<and>
   filter is_transcribe
     (trace (snd (transcribe_audio unreadable_env empty_world (ascii ''rec.mp3'')))) = []"
  unfolding sample_run unreadable_run by (simp add: chunk_separator_def ascii_def)

text \<open>The result and the calls of the sample run.\<close>

theorem chunked_transcript_in_order_witness:
  "fst (transcribe_audio sample_env empty_world (ascii ''rec.mp3'')) =
     Returned (join chunk_separator [ascii ''part0'', ascii ''part1'', ascii ''part2'']) \<and>
   filter is_transcribe (trace (snd (transcribe_audio sample_env empty_world (ascii ''rec.mp3'')))) =
     [EvTranscribe (ascii ''/tmp/t/chunk_0.mp3'') (Some (ascii ''part0'')),
      EvTranscribe (ascii ''/tmp/t/chunk_1.mp3'') (Some (ascii ''part1'')),
      EvTranscribe (ascii ''/tmp/t/chunk_2.mp3'') (Some (ascii ''part2''))]"
proof -
  let ?p = "ascii ''rec.mp3''"
  let ?run = "transcribe_audio sample_env empty_world ?p"
  have h: "isfile sample_env ?p \<and> MAX_FILE_SIZE_MB * (1024 * 1024) < getsize sample_env ?p \<and>
    from_file sample_env ?p = Decoded 3600001 \<and> ?run = (fst ?run, snd ?run)"
    by (simp add: sample_sel MAX_FILE_SIZE_MB_def)
  have ret: "\<exists>text. fst ?run = Returned text" by (simp add: sample_run)
  have m: "(3600001 + AUDIO_CHUNK_LENGTH_MS - 1) div AUDIO_CHUNK_LENGTH_MS = 3"
    by (simp add: AUDIO_CHUNK_LENGTH_MS_def)
  from chunked_transcript_in_order
    [of sample_env ?p 3600001 empty_world "fst ?run" "snd ?run",
     THEN conjunct1, rule_format, OF h]
  obtain ts where
    wh: "\<forall>k<length ts. whisper sample_env (calls_made empty_world + k)
              (chunk_path (mkdtemp sample_env) (snd (splitext (basename ?p))) k) = Some (ts ! k)" and
    good: "(\<exists>text. fst ?run = Returned text) \<longrightarrow>
            length ts = 3 \<and> fst ?run = Returned (join chunk_separator ts)"
    unfolding m by blast
  from good ret have len: "length ts = 3" and res: "fst ?run = Returned (join chunk_separator ts)"
    by simp_all
  have "ts ! k = ascii ''part'' @ str_nat k" if "k < 3" for k
    using wh that len by (simp add: sample_sel calls_made_def empty_world_def)
  then have n: "ts ! 0 = ascii ''part0''" "ts ! 1 = ascii ''part1''" "ts ! 2 = ascii ''part2''"
    by (simp_all add: str_nat_digit ascii_def)
  have "ts = [ascii ''part0'', ascii ''part1'', ascii ''part2'']"
  proof (rule nth_equalityI)
    show "length ts = length [ascii ''part0'', ascii ''part1'', ascii ''part2'']"
      using len by simp
    fix i assume "i < length ts"
    with len have "i = 0 \<or> i = 1 \<or> i = 2" by auto
    then show "ts ! i = [ascii ''part0'', ascii ''part1'', ascii ''part2''] ! i"
      using n by auto
  qed
  with res have 1: "fst ?run =
      Returned (join chunk_separator [ascii ''part0'', ascii ''part1'', ascii ''part2''])"
    by simp
  have 2: "filter is_transcribe (trace (snd ?run)) =
     [EvTranscribe (ascii ''/tmp/t/chunk_0.mp3'') (Some (ascii ''part0'')),
      EvTranscribe (ascii ''/tmp/t/chunk_1.mp3'') (Some (ascii ''part1'')),
      EvTranscribe (ascii ''/tmp/t/chunk_2.mp3'') (Some (ascii ''part2''))]"
    unfolding sample_run by simp
  show ?thesis by (rule conjI [OF 1 2])
qed

section \<open>The whole run\<close>

lemma transcribe_audio_inv:
  assumes "transcribe_audio e w p = (r, w')"
  shows "files w' = files w \<and>
    (\<exists>new. trace w' = trace w @ new \<and>
       (\<forall>x \<in> set new. \<not> is_output x \<and> (is_service_call x \<longrightarrow> is_transcribe x)) \<and>
       ((\<exists>t. r = Returned t) \<longrightarrow> (\<forall>x \<in> set new. \<not> call_failed x)) \<and>
       (\<forall>x \<in> set (after_failure new). \<not> is_service_call x \<and> \<not> is_output x))"
proof (cases "isfile e p")
  case False
  with assms have "r = SysExit 1" "w' = w" by (simp_all add: transcribe_audio_missing)
  then show ?thesis by simp
next
  case isf: True
  show ?thesis
  proof (cases "getsize e p \<le> MAX_FILE_SIZE_MB * (1024 * 1024)")
    case small: True
    show ?thesis
    proof (cases "readable e p")
      case False
      with assms isf small have "r = Raised OSError" "w' = w"
        by (simp_all add: transcribe_audio_small transcribe_chunk_unreadable)
      then show ?thesis by simp
    next
      case True
      let ?a = "whisper e (calls_made w) p"
      from assms isf small True
      have r: "r = (case ?a of None \<Rightarrow> Raised TranscriptionError | Some t \<Rightarrow> Returned t)"
        and w': "w' = emit (EvTranscribe p ?a) w"
        by (simp_all add: transcribe_audio_small transcribe_chunk_eq)
      show ?thesis
        unfolding r w'
        by (intro conjI exI [where x = "[EvTranscribe p ?a]"]) (auto split: option.splits)
    qed
  next
    case big: False
    show ?thesis
    proof (cases "\<exists>n. from_file e p = Decoded n")
      case False
      with assms isf big have "r = SysExit 1" "w' = emit (EvDecode p) w"
        by (simp_all add: transcribe_audio_undecodable)
      then show ?thesis by (intro conjI exI [where x = "[EvDecode p]"]) auto
    next
      case True
      then obtain n where n: "from_file e p = Decoded n" by blast
      let ?tmp = "mkdtemp e"
      let ?w2 = "emit (EvMkTemp ?tmp) (emit (EvDecode p) w)"
      from big have big': "MAX_FILE_SIZE_MB * (1024 * 1024) < getsize e p" by simp
      from transcribe_audio_chunked [OF isf big' n assms] obtain r3 w3 where
        loop: "chunk_loop e n (snd (splitext (basename p))) ?tmp
                 (enumerate 0 (py_range 0 n AUDIO_CHUNK_LENGTH_MS)) [] ?w2 = (r3, w3)" and
        r: "r = (case r3 of Returned ts \<Rightarrow> Returned (join chunk_separator ts) | _ \<Rightarrow> propagate r3)" and
        w': "w' = emit (EvRmTemp ?tmp) w3"
        by blast
      from chunk_loop_inv [OF loop] obtain new where
        f: "files w3 = files ?w2" and tr: "trace w3 = trace ?w2 @ new" and
        ok: "(\<exists>ts. r3 = Returned ts) \<longrightarrow> (\<forall>x \<in> set new. \<not> call_failed x)" and
        ev: "\<forall>x \<in> set new. \<not> is_output x \<and> (is_service_call x \<longrightarrow> is_transcribe x)" and
        af: "after_failure new = []"
        by blast
      let ?new = "[EvDecode p, EvMkTemp ?tmp] @ new @ [EvRmTemp ?tmp]"
      have 1: "trace w' = trace w @ ?new" using tr w' by simp
      have 2: "\<forall>x \<in> set ?new. \<not> is_output x \<and> (is_service_call x \<longrightarrow> is_transcribe x)"
        using ev by auto
      have 3: "(\<exists>t. r = Returned t) \<longrightarrow> (\<forall>x \<in> set ?new. \<not> call_failed x)"
        using ok r by (cases r3) auto
      have "after_failure ?new = after_failure (new @ [EvRmTemp ?tmp])" by simp
      also have "\<dots> = (if \<exists>x \<in> set new. call_failed x then [EvRmTemp ?tmp] else [])"
        by (simp add: after_failure_append af)
      finally have 4: "\<forall>x \<in> set (after_failure ?new). \<not> is_service_call x \<and> \<not> is_output x"
        by simp
      have 5: "files w' = files w" using f w' by simp
      show ?thesis by (intro conjI exI [where x = ?new] 1 2 3 4 5)
    qed
  qed
qed

lemma summarize_transcript_inv:
  assumes "summarize_transcript e w transcript terms prompt_type = (r, w')"
  shows "files w' = files w \<and>
    (\<exists>ev. trace w' = trace w @ [ev] \<and>
       ev = EvChat (snd (build_prompt transcript terms prompt_type))
              (fst (build_prompt transcript terms prompt_type))
              (chat e (snd (build_prompt transcript terms prompt_type))
                 (fst (build_prompt transcript terms prompt_type))) \<and>
       (call_failed ev \<longrightarrow> r = SysExit 1) \<and>
       (\<not> call_failed ev \<longrightarrow>
          (\<exists>content cs. chat e (snd (build_prompt transcript terms prompt_type))
                 (fst (build_prompt transcript terms prompt_type)) = Choices (Some content # cs) \<and>
             r = Returned (strip content))))"
  using assms
  by (auto simp: summarize_transcript_def Let_def split_def
      split: chat_response.splits list.splits option.splits)


lemma load_special_terms_result:
  "load_special_terms g = Raised OSError \<or> (\<exists>terms. load_special_terms g = Returned terms)"
  by (cases g) (simp_all add: load_special_terms_def)

lemma main_shape:
  assumes "main e w audio_file prompt_type = (r, w')"
  obtains
    (ta_failed) rt where "transcribe_audio e w audio_file = (rt, w')" "\<forall>t. rt \<noteq> Returned t"
      "r = propagate rt"
  | (glossary_failed) transcript where
      "transcribe_audio e w audio_file = (Returned transcript, w')"
      "load_special_terms (special_terms_file e) = Raised OSError" "r = Raised OSError"
  | (chat_failed) transcript w1 terms rs where
      "transcribe_audio e w audio_file = (Returned transcript, w1)"
      "load_special_terms (special_terms_file e) = Returned terms"
      "summarize_transcript e w1 transcript terms prompt_type = (rs, w')"
      "\<forall>s. rs \<noteq> Returned s" "r = propagate rs"
  | (no_directory) transcript w1 terms summary w2 where
      "transcribe_audio e w audio_file = (Returned transcript, w1)"
      "load_special_terms (special_terms_file e) = Returned terms"
      "summarize_transcript e w1 transcript terms prompt_type = (Returned summary, w2)"
      "r = Raised OSError"
      "w' = emit (EvMakedirs (strftime_YmdHM (now e)))
              (print2 summary_banner summary (print2 transcript_banner transcript w2))"
  | (written) transcript w1 terms summary w2 where
      "transcribe_audio e w audio_file = (Returned transcript, w1)"
      "load_special_terms (special_terms_file e) = Returned terms"
      "summarize_transcript e w1 transcript terms prompt_type = (Returned summary, w2)"
      "r = Returned ()"
      "w' = file_write
              (path_join (strftime_YmdHM (now e))
                 (fst (splitext (basename audio_file)) @ ascii ''.md''))
              summary
              (file_write
                 (path_join (strftime_YmdHM (now e))
                    (fst (splitext (basename audio_file)) @ ascii ''.md''))
                 (md_heading @ fst (splitext (basename audio_file)) @ ascii ''\<newline>\<newline>'')
                 (open_write
                    (path_join (strftime_YmdHM (now e))
                       (fst (splitext (basename audio_file)) @ ascii ''.md''))
                    (emit (EvMakedirs (strftime_YmdHM (now e)))
                       (print2 summary_banner summary
                          (print2 transcript_banner transcript w2)))))"
proof -
  obtain rt w1 where ta: "transcribe_audio e w audio_file = (rt, w1)"
    by (cases "transcribe_audio e w audio_file") blast
  show thesis
  proof (cases rt)
    case (Raised x)
    with assms ta show thesis by (intro ta_failed [of rt]) (simp_all add: main_def)
  next
    case (SysExit n)
    with assms ta show thesis by (intro ta_failed [of rt]) (simp_all add: main_def)
  next
    case (Returned transcript)
    note ta = ta [unfolded Returned]
    from load_special_terms_result [of "special_terms_file e"] show thesis
    proof
      assume g: "load_special_terms (special_terms_file e) = Raised OSError"
      with assms ta show thesis by (intro glossary_failed [of transcript]) (simp_all add: main_def)
    next
      assume "\<exists>terms. load_special_terms (special_terms_file e) = Returned terms"
      then obtain terms where g: "load_special_terms (special_terms_file e) = Returned terms"
        by blast
      obtain rs w2 where su: "summarize_transcript e w1 transcript terms prompt_type = (rs, w2)"
        by (cases "summarize_transcript e w1 transcript terms prompt_type") blast
      show thesis
      proof (cases rs)
        case (Raised x)
        with assms ta g su show thesis
          by (intro chat_failed [of transcript w1 terms rs]) (simp_all add: main_def)
      next
        case (SysExit n)
        with assms ta g su show thesis
          by (intro chat_failed [of transcript w1 terms rs]) (simp_all add: main_def)
      next
        case (Returned summary)
        note su = su [unfolded Returned]
        show thesis
        proof (cases "makedirs_ok e (strftime_YmdHM (now e)) \<and>
            open_ok e (path_join (strftime_YmdHM (now e))
                 (fst (splitext (basename audio_file)) @ ascii ''.md''))")
          case True
          with assms ta g su show thesis
            by (intro written [of transcript w1 terms summary w2])
              (simp_all add: main_def Let_def)
        next
          case False
          with assms ta g su show thesis
            by (intro no_directory [of transcript w1 terms summary w2])
              (auto simp: main_def Let_def split: if_splits)
        qed
      qed
    qed
  qed
qed


lemma trace_print2 [simp]:
  "trace (print2 a b w) = trace w @ [EvPrint (a @ ascii '' '' @ b @ ascii ''\<newline>'')]"
  by (simp add: print2_def)

lemma files_print2 [simp]: "files (print2 a b w) = files w"
  by (simp add: print2_def)

lemma trace_open_write [simp]: "trace (open_write p w) = trace w @ [EvOpenWrite p]"
  by (simp add: open_write_def)

lemma trace_file_write [simp]: "trace (file_write p s w) = trace w @ [EvWrite p s]"
  by (simp add: file_write_def)

text \<open>
  Claim C4. In every run of \<open>main\<close>: if a transcription call or the summarization call
  failed, then the run did not return, the files are as they were before the run, nothing
  was printed and no directory or file was made or written, and after the first failed
  call no service was called again. If anything was printed, made or written, then no
  call had failed and transcription, glossary loading and summarization had all returned.
  If the files changed, the run returned.
\<close>

theorem failed_call_aborts_run:
  assumes "main e w audio_file prompt_type = (r, w')"
  shows "\<exists>new. trace w' = trace w @ new \<and>
     ((\<exists>x \<in> set new. call_failed x) \<longrightarrow>
        r \<noteq> Returned () \<and> files w' = files w \<and> (\<forall>x \<in> set new. \<not> is_output x) \<and>
        (\<forall>x \<in> set (after_failure new). \<not> is_service_call x \<and> \<not> is_output x)) \<and>
     ((\<exists>x \<in> set new. is_output x) \<longrightarrow>
        (\<forall>x \<in> set new. \<not> call_failed x) \<and>
        (\<exists>transcript w1 terms summary w2.
           transcribe_audio e w audio_file = (Returned transcript, w1) \<and>
           load_special_terms (special_terms_file e) = Returned terms \<and>
           summarize_transcript e w1 transcript terms prompt_type = (Returned summary, w2))) \<and>
     (files w' \<noteq> files w \<longrightarrow> r = Returned ())"
  using assms
proof (cases rule: main_shape)
  case (ta_failed rt)
  from transcribe_audio_inv [OF ta_failed(1)] obtain new where
    f: "files w' = files w" and tr: "trace w' = trace w @ new" and
    ev: "\<forall>x \<in> set new. \<not> is_output x \<and> (is_service_call x \<longrightarrow> is_transcribe x)" and
    af: "\<forall>x \<in> set (after_failure new). \<not> is_service_call x \<and> \<not> is_output x"
    by blast
  have "r \<noteq> Returned ()" using ta_failed(2,3) by (cases rt) simp_all
  with f tr ev af show ?thesis by (intro exI [where x = new]) simp
next
  case (glossary_failed transcript)
  from transcribe_audio_inv [OF glossary_failed(1)] obtain new where
    f: "files w' = files w" and tr: "trace w' = trace w @ new" and
    ev: "\<forall>x \<in> set new. \<not> is_output x \<and> (is_service_call x \<longrightarrow> is_transcribe x)" and
    af: "\<forall>x \<in> set (after_failure new). \<not> is_service_call x \<and> \<not> is_output x"
    by blast
  with glossary_failed(3) show ?thesis by (intro exI [where x = new]) simp
next
  case (chat_failed transcript w1 terms rs)
  from transcribe_audio_inv [OF chat_failed(1)] obtain new where
    f: "files w1 = files w" and tr: "trace w1 = trace w @ new" and
    ev: "\<forall>x \<in> set new. \<not> is_output x \<and> (is_service_call x \<longrightarrow> is_transcribe x)" and
    ok: "\<forall>x \<in> set new. \<not> call_failed x"
    by blast
  from summarize_transcript_inv [OF chat_failed(3)] obtain c where
    f2: "files w' = files w1" and tr2: "trace w' = trace w1 @ [c]" and
    c: "\<exists>s q a. c = EvChat s q a" and
    bad: "call_failed c \<longrightarrow> rs = SysExit 1" and
    good: "\<not> call_failed c \<longrightarrow> (\<exists>s. rs = Returned s)"
    by blast
  from good chat_failed(4) have cf: "call_failed c" by blast
  with bad chat_failed(5) have r: "r = SysExit 1" by simp
  have no: "\<not> is_output c" using c by auto
  have af: "after_failure (new @ [c]) = []" using ok cf by (simp add: after_failure_append)
  show ?thesis
    by (intro exI [where x = "new @ [c]"] conjI)
      (use f f2 tr tr2 ev r no af in \<open>auto simp del: after_failure.simps\<close>)
next
  case (no_directory transcript w1 terms summary w2)
  from transcribe_audio_inv [OF no_directory(1)] obtain new where
    f: "files w1 = files w" and tr: "trace w1 = trace w @ new" and
    ok: "\<forall>x \<in> set new. \<not> call_failed x"
    by blast
  from summarize_transcript_inv [OF no_directory(3)] obtain c where
    f2: "files w2 = files w1" and tr2: "trace w2 = trace w1 @ [c]" and
    bad: "call_failed c \<longrightarrow> Returned summary = (SysExit 1 :: pystr result)"
    by blast
  from bad have cf: "\<not> call_failed c" by auto
  let ?new = "new @ [c, EvPrint (transcript_banner @ ascii '' '' @ transcript @ ascii ''\<newline>''),
                EvPrint (summary_banner @ ascii '' '' @ summary @ ascii ''\<newline>''),
                EvMakedirs (strftime_YmdHM (now e))]"
  have 1: "trace w' = trace w @ ?new" by (simp add: no_directory(5) tr tr2)
  have 2: "files w' = files w" by (simp add: no_directory(5) f f2)
  have 3: "\<forall>x \<in> set ?new. \<not> call_failed x" using ok cf by simp
  show ?thesis
    by (intro exI [where x = ?new] conjI 1)
      (use 2 3 no_directory(1-4) in blast)+
next
  case (written transcript w1 terms summary w2)
  from transcribe_audio_inv [OF written(1)] obtain new where
    tr: "trace w1 = trace w @ new" and ok: "\<forall>x \<in> set new. \<not> call_failed x"
    by blast
  from summarize_transcript_inv [OF written(3)] obtain c where
    tr2: "trace w2 = trace w1 @ [c]" and
    bad: "call_failed c \<longrightarrow> Returned summary = (SysExit 1 :: pystr result)"
    by blast
  from bad have cf: "\<not> call_failed c" by auto
  let ?md = "path_join (strftime_YmdHM (now e)) (fst (splitext (basename audio_file)) @ ascii ''.md'')"
  let ?new = "new @ [c, EvPrint (transcript_banner @ ascii '' '' @ transcript @ ascii ''\<newline>''),
                EvPrint (summary_banner @ ascii '' '' @ summary @ ascii ''\<newline>''),
                EvMakedirs (strftime_YmdHM (now e)), EvOpenWrite ?md,
                EvWrite ?md (md_heading @ fst (splitext (basename audio_file)) @ ascii ''\<newline>\<newline>''),
                EvWrite ?md summary]"
  have 1: "trace w' = trace w @ ?new" by (simp add: written(5) tr tr2)
  have 3: "\<forall>x \<in> set ?new. \<not> call_failed x" using ok cf by simp
  show ?thesis
    by (intro exI [where x = ?new] conjI 1)
      (use 3 written(1-4) in blast)+
qed

text \<open>
  A run in which the second chunk's transcription call fails: the run ends with the
  exception, no file exists afterwards, nothing was put out, and all that follows the
  failed call is the removal of the temporary directory.
\<close>

theorem failed_call_aborts_run_witness:
  "fst (main failing_env empty_world (ascii ''rec.mp3'') (ascii ''general''))
     = Raised TranscriptionError \<and>
   files (snd (main failing_env empty_world (ascii ''rec.mp3'') (ascii ''general''))) = Map.empty \<and>
   filter is_output
     (trace (snd (main failing_env empty_world (ascii ''rec.mp3'') (ascii ''general'')))) = [] \<and>
   after_failure (trace (snd (main failing_env empty_world (ascii ''rec.mp3'') (ascii ''general''))))
     = [EvRmTemp (ascii ''/tmp/t'')]"
proof -
  let ?run = "main failing_env empty_world (ascii ''rec.mp3'') (ascii ''general'')"
  have run: "?run = (Raised TranscriptionError, snd (transcribe_audio failing_env empty_world (ascii ''rec.mp3'')))"
    by (simp add: main_def failing_run)
  have tr: "trace (snd ?run) =
         [EvDecode (ascii ''rec.mp3''), EvMkTemp (ascii ''/tmp/t''),
          EvExport 0 0 1800000 (ascii ''/tmp/t/chunk_0.mp3'') (ascii ''mp3''),
          EvTranscribe (ascii ''/tmp/t/chunk_0.mp3'') (Some (ascii ''part0'')),
          EvExport 1 1800000 3600000 (ascii ''/tmp/t/chunk_1.mp3'') (ascii ''mp3''),
          EvTranscribe (ascii ''/tmp/t/chunk_1.mp3'') None,
          EvRmTemp (ascii ''/tmp/t'')]"
    by (simp add: run failing_run)
  have h: "?run = (fst ?run, snd ?run)" by simp
  from failed_call_aborts_run [OF h] obtain new where
    n: "trace (snd ?run) = trace empty_world @ new" and
    c: "(\<exists>x \<in> set new. call_failed x) \<longrightarrow>
        fst ?run \<noteq> Returned () \<and> files (snd ?run) = files empty_world \<and>
        (\<forall>x \<in> set new. \<not> is_output x) \<and>
        (\<forall>x \<in> set (after_failure new). \<not> is_service_call x \<and> \<not> is_output x)"
    by blast
  from n have new: "new = trace (snd ?run)" by (simp add: empty_world_def)
  have "\<exists>x \<in> set new. call_failed x" unfolding new tr by simp
  with c have "files (snd ?run) = files empty_world" "\<forall>x \<in> set new. \<not> is_output x" by blast+
  moreover have "after_failure (trace (snd ?run)) = [EvRmTemp (ascii ''/tmp/t'')]"
    unfolding tr by simp
  moreover have "fst ?run = Raised TranscriptionError" by (simp add: run)
  ultimately show ?thesis unfolding new by (simp add: empty_world_def filter_empty_conv)
qed

section \<open>The output file\<close>

















end
